theory Spec2Isabelle
  imports Main "HOL-Library.Word" "HOL-Library.Multiset"
begin

section \<open>Data model of the editor (App component)\<close>

text \<open>
  A browser \<open>File\<close>: its byte content, its name and its MIME type. Bytes are what a
  \<open>Uint8Array\<close> holds, that is, 8-bit words.
\<close>

record media_file =
  bytes :: "8 word list"
  name :: string
  ftype :: string

text \<open>
  What a \<open>catch (err)\<close> block of the component can receive. \<open>Error\<close> carries the
  message of an \<open>Error\<close> instance (the data URL helper and the AI service throw those),
  \<open>TypeError\<close> and \<open>SyntaxError\<close> are the built-in errors of property access and of
  \<open>JSON.parse\<close>, \<open>InvalidCharacterError\<close> is the \<open>DOMException\<close> of \<open>atob\<close>,
  \<open>QuotaExceededError\<close> the one of \<open>localStorage.setItem\<close>, and \<open>NonError\<close> is any
  thrown value that is not an \<open>Error\<close> instance.
\<close>

datatype js_error =
    Error string
  | TypeError
  | SyntaxError
  | InvalidCharacterError
  | QuotaExceededError
  | NonError

text \<open>
  The four AI-backed actions of the editor, and the values the component passes to
  \<open>setError\<close>. The user-facing texts are localized literals of the source; the model keeps
  which literal it is and, for a failed action, the caught value the text is built from.
\<close>

datatype action = Edit | Filter | Adjustment | Upscale

datatype ui_error =
    NoImageLoaded action
  | PromptMissing
  | HotspotMissing
  | ActionFailed action js_error

datatype toast = ToastUpscaled | ToastSaved

datatype tab = Retouch | Adjust | Filters | CropTab | Generate

datatype start_mode = UploadMode | GenerateMode

type_synonym hotspot = "int \<times> int"

type_synonym crop_rect = "int \<times> int \<times> int \<times> int"

text \<open>The \<open>useState\<close> cells of \<open>App\<close> that the history handlers read or write.\<close>

record app_state =
  history :: "media_file list"
  historyIndex :: int
  prompt :: string
  isLoading :: bool
  error :: "ui_error option"
  editHotspot :: "hotspot option"
  displayHotspot :: "hotspot option"
  activeTab :: tab
  crop :: "crop_rect option"
  completedCrop :: "crop_rect option"
  startMode :: start_mode
  toastMessage :: "toast option"

section \<open>History stack operations\<close>

text \<open>
  \<open>xs.slice(0, e)\<close> of JavaScript: a negative end counts from the end of the array, and
  the end is clamped to the array's bounds.
\<close>

definition slice0 :: "'a list \<Rightarrow> int \<Rightarrow> 'a list" where
  "slice0 xs e =
     (let len = int (length xs);
          final = (if e < 0 then max (len + e) 0 else min e len)
      in take (nat final) xs)"

text \<open>\<open>history[historyIndex] ?? null\<close> and \<open>history[0] ?? null\<close>: an index out of range reads
  \<open>undefined\<close>, which \<open>??\<close> turns into \<open>null\<close>.\<close>

definition currentImage :: "app_state \<Rightarrow> media_file option" where
  "currentImage st =
     (if 0 \<le> historyIndex st \<and> historyIndex st < int (length (history st))
      then Some (history st ! nat (historyIndex st)) else None)"

definition originalImage :: "app_state \<Rightarrow> media_file option" where
  "originalImage st = (case history st of [] \<Rightarrow> None | f # _ \<Rightarrow> Some f)"

definition canUndo :: "app_state \<Rightarrow> bool" where
  "canUndo st = (historyIndex st > 0)"

definition canRedo :: "app_state \<Rightarrow> bool" where
  "canRedo st = (historyIndex st < int (length (history st)) - 1)"

definition addImageToHistory :: "media_file \<Rightarrow> app_state \<Rightarrow> app_state" where
  "addImageToHistory newImageFile st =
     (let newHistory = slice0 (history st) (historyIndex st + 1) @ [newImageFile]
      in st\<lparr>history := newHistory,
            historyIndex := int (length newHistory) - 1,
            crop := None,
            completedCrop := None\<rparr>)"

definition handleUndo :: "app_state \<Rightarrow> app_state" where
  "handleUndo st =
     (if canUndo st
      then st\<lparr>historyIndex := historyIndex st - 1, editHotspot := None, displayHotspot := None\<rparr>
      else st)"

definition handleRedo :: "app_state \<Rightarrow> app_state" where
  "handleRedo st =
     (if canRedo st
      then st\<lparr>historyIndex := historyIndex st + 1, editHotspot := None, displayHotspot := None\<rparr>
      else st)"

definition handleReset :: "app_state \<Rightarrow> app_state" where
  "handleReset st =
     (if length (history st) > 0
      then st\<lparr>historyIndex := 0, error := None, editHotspot := None, displayHotspot := None\<rparr>
      else st)"

definition handleImageUpload :: "media_file \<Rightarrow> app_state \<Rightarrow> app_state" where
  "handleImageUpload f st =
     st\<lparr>error := None, history := [f], historyIndex := 0, editHotspot := None,
        displayHotspot := None, activeTab := Retouch, crop := None, completedCrop := None,
        startMode := UploadMode\<rparr>"

definition handleUploadNew :: "start_mode \<Rightarrow> app_state \<Rightarrow> app_state" where
  "handleUploadNew mode st =
     st\<lparr>history := [], historyIndex := -1, error := None, prompt := [],
        editHotspot := None, displayHotspot := None, startMode := mode\<rparr>"

text \<open>A call sequence of the three history operations, applied left to right.\<close>

datatype history_op = Append media_file | Undo | Redo

fun apply_history_op :: "history_op \<Rightarrow> app_state \<Rightarrow> app_state" where
  "apply_history_op (Append f) st = addImageToHistory f st"
| "apply_history_op Undo st = handleUndo st"
| "apply_history_op Redo st = handleRedo st"

fun run_history_ops :: "history_op list \<Rightarrow> app_state \<Rightarrow> app_state" where
  "run_history_ops [] st = st"
| "run_history_ops (x # xs) st = run_history_ops xs (apply_history_op x st)"

text \<open>The stack invariant: the index is \<open>-1\<close> or a position of the sequence.\<close>

definition valid_stack :: "app_state \<Rightarrow> bool" where
  "valid_stack st =
     (- 1 \<le> historyIndex st \<and> historyIndex st \<le> int (length (history st)) - 1)"

text \<open>Sample data for the concrete evaluations below.\<close>

definition sample_file :: "string \<Rightarrow> media_file" where
  "sample_file n = \<lparr>bytes = [], name = n, ftype = ''image/png''\<rparr>"

definition sample_state :: "media_file list \<Rightarrow> int \<Rightarrow> app_state" where
  "sample_state h i =
     \<lparr>history = h, historyIndex = i, prompt = [], isLoading = False, error = None,
      editHotspot = None, displayHotspot = None, activeTab = Retouch, crop = None,
      completedCrop = None, startMode = UploadMode, toastMessage = None\<rparr>"

section \<open>Media codec\<close>

text \<open>
  JavaScript strings are modelled as \<open>string\<close>, lists of 8-bit characters: the code units
  \<open>0..255\<close>. That covers data URLs, base64 text and the binary strings of \<open>atob\<close>.
\<close>

subsection \<open>Platform functions used by the codec\<close>

text \<open>
  The functions of this subsection are the browser's, not the repository's. They follow the
  standards that define them: RFC 4648 base64 with padding for \<open>FileReader.readAsDataURL\<close>,
  the forgiving-base64 decoding of \<open>atob\<close>, and the \<open>File\<close> constructor's treatment of
  its \<open>type\<close> option.
\<close>

definition base64_alphabet :: string where
  "base64_alphabet = ''ABCDEFGHIJKLMNOPQRSTUVWXYZabcdefghijklmnopqrstuvwxyz0123456789+/''"

definition base64_char :: "nat \<Rightarrow> char" where
  "base64_char i = base64_alphabet ! (i mod 64)"

fun index_of :: "'a \<Rightarrow> 'a list \<Rightarrow> nat option" where
  "index_of x [] = None"
| "index_of x (y # ys) = (if x = y then Some 0 else map_option Suc (index_of x ys))"

definition base64_value :: "char \<Rightarrow> nat option" where
  "base64_value c = index_of c base64_alphabet"

text \<open>Three bytes become four characters; a final group of one or two bytes is padded
  with \<open>=\<close>.\<close>

fun base64_encode :: "8 word list \<Rightarrow> string" where
  "base64_encode (x # y # z # rest) =
     (let n = unat x * 65536 + unat y * 256 + unat z
      in [base64_char (n div 262144), base64_char (n div 4096), base64_char (n div 64),
          base64_char n]) @ base64_encode rest"
| "base64_encode [x, y] =
     (let n = (unat x * 256 + unat y) * 4
      in [base64_char (n div 4096), base64_char (n div 64), base64_char n, CHR ''=''])"
| "base64_encode [x] =
     (let n = unat x * 16
      in [base64_char (n div 64), base64_char n, CHR ''='', CHR ''=''])"
| "base64_encode [] = []"

text \<open>
  \<open>readAsDataURL\<close> (a read that succeeds): the type of the file, or
  \<open>application/octet-stream\<close> for a file without type, then the base64 text of the bytes.
  This is what browsers answer for a type of the form \<open>type/subtype\<close>, such as
  \<open>image/png\<close>; what a platform does with a type string of another form is not fixed by
  the standard, and the claims use none.
\<close>

definition readAsDataURL :: "media_file \<Rightarrow> string" where
  "readAsDataURL f =
     ''data:'' @ (if ftype f = [] then ''application/octet-stream'' else ftype f)
       @ '';base64,'' @ base64_encode (bytes f)"

definition is_ascii_whitespace :: "char \<Rightarrow> bool" where
  "is_ascii_whitespace c =
     (c = CHR 0x09 \<or> c = CHR 0x0A \<or> c = CHR 0x0C \<or> c = CHR 0x0D \<or> c = CHR 0x20)"

text \<open>The sextets of the decoder: full groups of four give three bytes, a final group of
  three gives two bytes (the last two bits are dropped), a final group of two gives one byte
  (the last four bits are dropped).\<close>

fun decode_sextets :: "nat list \<Rightarrow> string" where
  "decode_sextets (a # b # c # d # rest) =
     (let n = ((a * 64 + b) * 64 + c) * 64 + d
      in [char_of (n div 65536), char_of (n div 256), char_of n]) @ decode_sextets rest"
| "decode_sextets [a, b, c] =
     (let n = ((a * 64 + b) * 64 + c) div 4
      in [char_of (n div 256), char_of n])"
| "decode_sextets [a, b] = [char_of ((a * 64 + b) div 16)]"
| "decode_sextets [a] = []"
| "decode_sextets [] = []"

definition strip_padding :: "string \<Rightarrow> string" where
  "strip_padding d =
     (if d \<noteq> [] \<and> last d = CHR ''=''
      then (if butlast d \<noteq> [] \<and> last (butlast d) = CHR ''=''
            then butlast (butlast d) else butlast d)
      else d)"

text \<open>\<open>atob\<close>: \<open>None\<close> stands for the \<open>InvalidCharacterError\<close> it throws.\<close>

definition atob :: "string \<Rightarrow> string option" where
  "atob data =
     (let d0 = filter (\<lambda>c. \<not> is_ascii_whitespace c) data;
          d = (if length d0 mod 4 = 0 then strip_padding d0 else d0)
      in if length d mod 4 = 1 then None
         else (case those (map base64_value d) of
                 None \<Rightarrow> None
               | Some vs \<Rightarrow> Some (decode_sextets vs)))"

definition ascii_lowercase :: "char \<Rightarrow> char" where
  "ascii_lowercase c =
     (if 65 \<le> (of_char c :: nat) \<and> (of_char c :: nat) \<le> 90
      then char_of ((of_char c :: nat) + 32) else c)"

text \<open>The \<open>type\<close> option of \<open>new File\<close>: a type with a character outside
  \<open>U+0020..U+007E\<close> becomes the empty string, any other type is lowercased.\<close>

definition normalize_type :: "string \<Rightarrow> string" where
  "normalize_type t =
     (if list_all (\<lambda>c. 32 \<le> (of_char c :: nat) \<and> (of_char c :: nat) \<le> 126) t
      then map ascii_lowercase t else [])"

definition new_File :: "8 word list \<Rightarrow> string \<Rightarrow> string \<Rightarrow> media_file" where
  "new_File content filename t = \<lparr>bytes = content, name = filename, ftype = normalize_type t\<rparr>"

subsection \<open>dataURLtoFile and fileToDataURL\<close>

text \<open>\<open>s.split(',')\<close>: the pieces between the separators; never an empty array.\<close>

fun split_on :: "char \<Rightarrow> string \<Rightarrow> string list" where
  "split_on sep [] = [[]]"
| "split_on sep (c # cs) =
     (if c = sep then [] # split_on sep cs
      else (case split_on sep cs of
              p # ps \<Rightarrow> (c # p) # ps
            | [] \<Rightarrow> [[c]]))"

text \<open>
  The regular expression \<open>/:(.*?);/\<close>. \<open>lazy_until_semicolon\<close> is \<open>(.*?);\<close> matched at the
  start of its input: the dot does not match a line terminator, and the lazy star stops at
  the first semicolon. \<open>match_mime\<close> tries every colon from the left and returns group 1 of
  the first match.
\<close>

definition is_line_terminator :: "char \<Rightarrow> bool" where
  "is_line_terminator c = (c = CHR 0x0A \<or> c = CHR 0x0D)"

fun lazy_until_semicolon :: "string \<Rightarrow> string option" where
  "lazy_until_semicolon [] = None"
| "lazy_until_semicolon (c # cs) =
     (if c = CHR '';'' then Some []
      else if is_line_terminator c then None
      else map_option (Cons c) (lazy_until_semicolon cs))"

fun match_mime :: "string \<Rightarrow> string option" where
  "match_mime [] = None"
| "match_mime (c # cs) =
     (if c = CHR '':''
      then (case lazy_until_semicolon cs of
              Some g \<Rightarrow> Some g
            | None \<Rightarrow> match_mime cs)
      else match_mime cs)"

text \<open>The loop \<open>while (n--) u8arr[n] = bstr.charCodeAt(n)\<close> over a zero-filled array.\<close>

fun fill_u8arr :: "nat \<Rightarrow> string \<Rightarrow> 8 word list \<Rightarrow> 8 word list" where
  "fill_u8arr 0 bstr u8arr = u8arr"
| "fill_u8arr (Suc n) bstr u8arr = fill_u8arr n bstr (u8arr[n := of_char (bstr ! n)])"

definition dataURLtoFile :: "string \<Rightarrow> string \<Rightarrow> js_error + media_file" where
  "dataURLtoFile dataurl filename =
     (let arr = split_on (CHR '','') dataurl
      in if length arr < 2 then Inl (Error ''Invalid data URL'')
         else (case match_mime (arr ! 0) of
                 None \<Rightarrow> Inl (Error ''Could not parse MIME type from data URL'')
               | Some mime \<Rightarrow>
                   if mime = [] then Inl (Error ''Could not parse MIME type from data URL'')
                   else (case atob (arr ! 1) of
                           None \<Rightarrow> Inl InvalidCharacterError
                         | Some bstr \<Rightarrow>
                             (let n = length bstr;
                                  u8arr = fill_u8arr n bstr (replicate n 0)
                              in Inr (new_File u8arr filename mime)))))"

text \<open>
  \<open>fileToDataURL\<close> resolves with the reader's result, or rejects with the reader's error
  event (not an \<open>Error\<close> instance) when the platform cannot read the file; \<open>readable\<close> says
  which.
\<close>

definition fileToDataURL :: "(media_file \<Rightarrow> bool) \<Rightarrow> media_file \<Rightarrow> js_error + string" where
  "fileToDataURL readable f = (if readable f then Inr (readAsDataURL f) else Inl NonError)"

section \<open>AI-backed editor actions\<close>

text \<open>\<open>String(n)\<close> for an integer \<open>n\<close>: its decimal digits, with a sign when negative.\<close>

fun show_nat :: "nat \<Rightarrow> string" where
  "show_nat n =
     (if n < 10 then [char_of (48 + n)]
      else show_nat (n div 10) @ [char_of (48 + n mod 10)])"

declare show_nat.simps [simp del]

definition show_int :: "int \<Rightarrow> string" where
  "show_int i = (if i < 0 then CHR ''-'' # show_nat (nat (- i)) else show_nat (nat i))"

text \<open>White space of JavaScript (\<open>trim\<close>, \<open>parseInt\<close>) among the 8-bit code units: TAB, LF,
  VT, FF, CR, SP and NBSP.\<close>

definition is_js_whitespace :: "char \<Rightarrow> bool" where
  "is_js_whitespace c =
     (c = CHR 0x09 \<or> c = CHR 0x0A \<or> c = CHR 0x0B \<or> c = CHR 0x0C \<or> c = CHR 0x0D
      \<or> c = CHR 0x20 \<or> c = CHR 0xA0)"

definition js_trim :: "string \<Rightarrow> string" where
  "js_trim s = rev (dropWhile is_js_whitespace (rev (dropWhile is_js_whitespace s)))"

text \<open>
  Each handler takes the AI service it awaits as a function: \<open>Inr\<close> is the data URL the
  promise resolves with, \<open>Inl\<close> the value it rejects with. \<open>now\<close> is the value of
  \<open>Date.now()\<close> used in the new file's name. The \<open>try\<close> block covers the service call, the
  decoding of its result and the append; \<open>catch\<close> reports through \<open>setError\<close>; \<open>finally\<close>
  clears the loading flag.
\<close>

definition handleGenerate ::
  "(media_file \<Rightarrow> string \<Rightarrow> hotspot \<Rightarrow> js_error + string) \<Rightarrow> nat \<Rightarrow> app_state \<Rightarrow> app_state"
where
  "handleGenerate generateEditedImage now st =
     (case currentImage st of
        None \<Rightarrow> st\<lparr>error := Some (NoImageLoaded Edit)\<rparr>
      | Some img \<Rightarrow>
          if js_trim (prompt st) = [] then st\<lparr>error := Some PromptMissing\<rparr>
          else (case editHotspot st of
                  None \<Rightarrow> st\<lparr>error := Some HotspotMissing\<rparr>
                | Some spot \<Rightarrow>
                    (let st1 = st\<lparr>isLoading := True, error := None\<rparr>;
                         st2 =
                           (case generateEditedImage img (prompt st) spot of
                              Inl err \<Rightarrow> st1\<lparr>error := Some (ActionFailed Edit err)\<rparr>
                            | Inr editedImageUrl \<Rightarrow>
                                (case dataURLtoFile editedImageUrl
                                        (''edited-'' @ show_nat now @ ''.png'') of
                                   Inl err \<Rightarrow> st1\<lparr>error := Some (ActionFailed Edit err)\<rparr>
                                 | Inr newImageFile \<Rightarrow>
                                     (addImageToHistory newImageFile st1)
                                       \<lparr>editHotspot := None, displayHotspot := None\<rparr>))
                     in st2\<lparr>isLoading := False\<rparr>)))"

definition handleApplyFilter ::
  "(media_file \<Rightarrow> string \<Rightarrow> js_error + string) \<Rightarrow> nat \<Rightarrow> string \<Rightarrow> app_state \<Rightarrow> app_state"
where
  "handleApplyFilter generateFilteredImage now filterPrompt st =
     (case currentImage st of
        None \<Rightarrow> st\<lparr>error := Some (NoImageLoaded Filter)\<rparr>
      | Some img \<Rightarrow>
          (let st1 = st\<lparr>isLoading := True, error := None\<rparr>;
               st2 =
                 (case generateFilteredImage img filterPrompt of
                    Inl err \<Rightarrow> st1\<lparr>error := Some (ActionFailed Filter err)\<rparr>
                  | Inr filteredImageUrl \<Rightarrow>
                      (case dataURLtoFile filteredImageUrl
                              (''filtered-'' @ show_nat now @ ''.png'') of
                         Inl err \<Rightarrow> st1\<lparr>error := Some (ActionFailed Filter err)\<rparr>
                       | Inr newImageFile \<Rightarrow> addImageToHistory newImageFile st1))
           in st2\<lparr>isLoading := False\<rparr>))"

definition handleApplyAdjustment ::
  "(media_file \<Rightarrow> string \<Rightarrow> js_error + string) \<Rightarrow> nat \<Rightarrow> string \<Rightarrow> app_state \<Rightarrow> app_state"
where
  "handleApplyAdjustment generateAdjustedImage now adjustmentPrompt st =
     (case currentImage st of
        None \<Rightarrow> st\<lparr>error := Some (NoImageLoaded Adjustment)\<rparr>
      | Some img \<Rightarrow>
          (let st1 = st\<lparr>isLoading := True, error := None\<rparr>;
               st2 =
                 (case generateAdjustedImage img adjustmentPrompt of
                    Inl err \<Rightarrow> st1\<lparr>error := Some (ActionFailed Adjustment err)\<rparr>
                  | Inr adjustedImageUrl \<Rightarrow>
                      (case dataURLtoFile adjustedImageUrl
                              (''adjusted-'' @ show_nat now @ ''.png'') of
                         Inl err \<Rightarrow> st1\<lparr>error := Some (ActionFailed Adjustment err)\<rparr>
                       | Inr newImageFile \<Rightarrow> addImageToHistory newImageFile st1))
           in st2\<lparr>isLoading := False\<rparr>))"

definition handleUpscaleImage ::
  "(media_file \<Rightarrow> js_error + string) \<Rightarrow> nat \<Rightarrow> app_state \<Rightarrow> app_state"
where
  "handleUpscaleImage upscaleImage now st =
     (case currentImage st of
        None \<Rightarrow> st\<lparr>error := Some (NoImageLoaded Upscale)\<rparr>
      | Some img \<Rightarrow>
          (let st1 = st\<lparr>isLoading := True, error := None\<rparr>;
               st2 =
                 (case upscaleImage img of
                    Inl err \<Rightarrow> st1\<lparr>error := Some (ActionFailed Upscale err)\<rparr>
                  | Inr upscaledImageUrl \<Rightarrow>
                      (case dataURLtoFile upscaledImageUrl
                              (''upscaled-'' @ show_nat now @ ''.png'') of
                         Inl err \<Rightarrow> st1\<lparr>error := Some (ActionFailed Upscale err)\<rparr>
                       | Inr newImageFile \<Rightarrow>
                           (addImageToHistory newImageFile st1)
                             \<lparr>toastMessage := Some ToastUpscaled\<rparr>))
           in st2\<lparr>isLoading := False\<rparr>))"

section \<open>History persistence\<close>

text \<open>\<open>localStorage\<close>: a map from keys to string values.\<close>

type_synonym storage = "string \<rightharpoonup> string"

definition history_key :: string where
  "history_key = ''matome_creative_history''"

definition index_key :: string where
  "index_key = ''matome_creative_historyIndex''"

text \<open>
  The values \<open>JSON.parse\<close> can return. A number carries its canonical rendering (what
  \<open>String\<close> gives for it); an object lists each of its properties once. \<open>JSON.parse\<close> and
  \<open>JSON.stringify\<close> themselves are the platform's and are taken as parameters: \<open>None\<close> is the
  \<open>SyntaxError\<close> of \<open>JSON.parse\<close>.
\<close>

datatype json =
    JNull
  | JBool bool
  | JNumber string
  | JString string
  | JArray "json list"
  | JObject "(string \<times> json) list"

fun join_comma :: "string list \<Rightarrow> string" where
  "join_comma [] = []"
| "join_comma [s] = s"
| "join_comma (s # t # ts) = s @ '','' @ join_comma (t # ts)"

text \<open>The string conversion the \<open>File\<close> constructor applies to its name argument; \<open>None\<close>
  is \<open>undefined\<close>.\<close>

fun js_to_string :: "json \<Rightarrow> string" where
  "js_to_string JNull = ''null''"
| "js_to_string (JBool b) = (if b then ''true'' else ''false'')"
| "js_to_string (JNumber n) = n"
| "js_to_string (JString s) = s"
| "js_to_string (JArray xs) =
     join_comma (map (\<lambda>x. if x = JNull then [] else js_to_string x) xs)"
| "js_to_string (JObject kvs) = ''[object Object]''"

definition to_file_name :: "json option \<Rightarrow> string" where
  "to_file_name v = (case v of None \<Rightarrow> ''undefined'' | Some j \<Rightarrow> js_to_string j)"

text \<open>Reading a property of a parsed value: \<open>null\<close> throws, an object answers with the
  property or \<open>undefined\<close>, anything else has no such property.\<close>

definition get_property :: "json \<Rightarrow> string \<Rightarrow> js_error + json option" where
  "get_property v key =
     (case v of
        JNull \<Rightarrow> Inl TypeError
      | JObject kvs \<Rightarrow> Inr (map_of kvs key)
      | _ \<Rightarrow> Inr None)"

text \<open>\<open>item => dataURLtoFile(item.dataUrl, item.name)\<close>: both properties are read, then
  \<open>dataurl.split\<close> throws unless the first is a string.\<close>

definition decode_item :: "json \<Rightarrow> js_error + media_file" where
  "decode_item item =
     (case get_property item ''dataUrl'' of
        Inl e \<Rightarrow> Inl e
      | Inr d \<Rightarrow>
          (case get_property item ''name'' of
             Inl e \<Rightarrow> Inl e
           | Inr n \<Rightarrow>
               (case d of
                  Some (JString dataurl) \<Rightarrow> dataURLtoFile dataurl (to_file_name n)
                | _ \<Rightarrow> Inl TypeError)))"

text \<open>\<open>xs.map(f)\<close> where \<open>f\<close> can throw: the first throw ends the whole call.\<close>

fun map_result :: "('a \<Rightarrow> 'e + 'b) \<Rightarrow> 'a list \<Rightarrow> 'e + 'b list" where
  "map_result f [] = Inr []"
| "map_result f (x # xs) =
     (case f x of
        Inl e \<Rightarrow> Inl e
      | Inr y \<Rightarrow> (case map_result f xs of Inl e \<Rightarrow> Inl e | Inr ys \<Rightarrow> Inr (y # ys)))"

definition is_digit :: "char \<Rightarrow> bool" where
  "is_digit c = (48 \<le> (of_char c :: nat) \<and> (of_char c :: nat) \<le> 57)"

fun digits_value :: "nat \<Rightarrow> string \<Rightarrow> nat" where
  "digits_value acc [] = acc"
| "digits_value acc (c # cs) = digits_value (acc * 10 + ((of_char c :: nat) - 48)) cs"

text \<open>\<open>parseInt(s, 10)\<close>: leading white space and a sign are skipped, then the longest run
  of digits is read; \<open>None\<close> is \<open>NaN\<close>.\<close>

definition parseInt10 :: "string \<Rightarrow> int option" where
  "parseInt10 s =
     (let s1 = dropWhile is_js_whitespace s;
          neg = (s1 \<noteq> [] \<and> hd s1 = CHR ''-'');
          s2 = (if s1 \<noteq> [] \<and> (hd s1 = CHR ''-'' \<or> hd s1 = CHR ''+'') then tl s1 else s1);
          ds = takeWhile is_digit s2
      in if ds = [] then None
         else Some ((if neg then - 1 else 1) * int (digits_value 0 ds)))"

text \<open>The body of the \<open>try\<close> block of \<open>loadInitialState\<close>; \<open>Inl\<close> is what it throws.\<close>

definition loadInitialState_try ::
  "(string \<Rightarrow> json option) \<Rightarrow> storage \<Rightarrow> js_error + (media_file list \<times> int)"
where
  "loadInitialState_try JSON_parse ls =
     (case (ls history_key, ls index_key) of
        (Some savedHistoryJSON, Some savedIndexStr) \<Rightarrow>
          if savedHistoryJSON = [] \<or> savedIndexStr = [] then Inr ([], - 1)
          else (case JSON_parse savedHistoryJSON of
                  None \<Rightarrow> Inl SyntaxError
                | Some (JArray savedHistory) \<Rightarrow>
                    (case map_result decode_item savedHistory of
                       Inl e \<Rightarrow> Inl e
                     | Inr h \<Rightarrow>
                         (let len = int (length h);
                              historyIndex' =
                                (case parseInt10 savedIndexStr of
                                   None \<Rightarrow> (if len > 0 then len - 1 else - 1)
                                 | Some i \<Rightarrow>
                                     if i < 0 \<or> i \<ge> len
                                     then (if len > 0 then len - 1 else - 1)
                                     else i)
                          in Inr (h, historyIndex')))
                | Some _ \<Rightarrow> Inl TypeError)
      | _ \<Rightarrow> Inr ([], - 1))"

text \<open>\<open>loadInitialState\<close>: the storage after the call and the returned
  \<open>{history, historyIndex}\<close>.\<close>

definition loadInitialState ::
  "(string \<Rightarrow> json option) \<Rightarrow> storage \<Rightarrow> storage \<times> (media_file list \<times> int)"
where
  "loadInitialState JSON_parse ls =
     (case loadInitialState_try JSON_parse ls of
        Inr r \<Rightarrow> (ls, r)
      | Inl e \<Rightarrow> (ls(history_key := None, index_key := None), ([], - 1)))"

text \<open>\<open>localStorage.setItem\<close>: throws \<open>QuotaExceededError\<close> when the storage that would
  result has no room, as \<open>has_room\<close> decides.\<close>

definition setItem :: "(storage \<Rightarrow> bool) \<Rightarrow> storage \<Rightarrow> string \<Rightarrow> string \<Rightarrow> js_error + storage" where
  "setItem has_room ls k v =
     (if has_room (ls(k \<mapsto> v)) then Inr (ls(k \<mapsto> v)) else Inl QuotaExceededError)"

text \<open>
  The persistence effect. Its function \<open>saveState\<close> is asynchronous: called by the effect,
  it runs up to its first \<open>await\<close> and returns. With a history to write, that point is the
  \<open>await\<close> of the encoded files, before anything is stored; what remains to be done is kept
  with the history and the index the call has captured. With nothing to write, the two
  keys are removed at once and nothing remains to be done.
\<close>

record pending_save =
  pending_history :: "media_file list"
  pending_index :: int

definition saveState :: "app_state \<Rightarrow> storage \<Rightarrow> storage \<times> pending_save option" where
  "saveState st ls =
     (if length (history st) > 0 \<and> historyIndex st \<ge> 0
      then (ls, Some \<lparr>pending_history = history st, pending_index = historyIndex st\<rparr>)
      else (ls(history_key := None, index_key := None), None))"

text \<open>\<open>async file => ({dataUrl: await fileToDataURL(file), name: file.name})\<close>.\<close>

definition serialize_entry :: "(media_file \<Rightarrow> bool) \<Rightarrow> media_file \<Rightarrow> js_error + json" where
  "serialize_entry readable f =
     (case fileToDataURL readable f of
        Inl e \<Rightarrow> Inl e
      | Inr d \<Rightarrow> Inr (JObject [(''dataUrl'', JString d), (''name'', JString (name f))]))"

text \<open>
  The rest of a call of \<open>saveState\<close>, run when its file readers have answered, on the
  storage as it is then: a reader that failed makes \<open>Promise.all\<close> reject, otherwise the two
  items are set. Every throw is logged and swallowed by the \<open>catch\<close>, leaving the storage as
  it is at that point.
\<close>

definition saveState_resume ::
  "(json \<Rightarrow> string) \<Rightarrow> (media_file \<Rightarrow> bool) \<Rightarrow> (storage \<Rightarrow> bool) \<Rightarrow> pending_save \<Rightarrow> storage \<Rightarrow> storage"
where
  "saveState_resume JSON_stringify readable has_room c ls =
     (case map_result (serialize_entry readable) (pending_history c) of
        Inl e \<Rightarrow> ls
      | Inr serializableHistory \<Rightarrow>
          (case setItem has_room ls history_key
                  (JSON_stringify (JArray serializableHistory)) of
             Inl e \<Rightarrow> ls
           | Inr ls1 \<Rightarrow>
               (case setItem has_room ls1 index_key (show_int (pending_index c)) of
                  Inl e \<Rightarrow> ls1
                | Inr ls2 \<Rightarrow> ls2)))"

text \<open>
  The storage over time: its content and the calls of \<open>saveState\<close> that still await their
  encoded files. The effect runs \<open>saveState\<close> each time \<open>history\<close> or \<open>historyIndex\<close> has
  changed (\<open>StateCommitted\<close>); the readers of an awaiting call answer at some later time
  (\<open>EncodingDone\<close>, with the position of the call among the awaiting ones), and nothing in
  the component cancels or orders the awaiting calls.
\<close>

record persistence =
  stored :: storage
  awaiting :: "pending_save list"

datatype persistence_event = StateCommitted app_state | EncodingDone nat

fun persistence_step ::
  "(json \<Rightarrow> string) \<Rightarrow> (media_file \<Rightarrow> bool) \<Rightarrow> (storage \<Rightarrow> bool) \<Rightarrow> persistence_event
    \<Rightarrow> persistence \<Rightarrow> persistence"
where
  "persistence_step JSON_stringify readable has_room (StateCommitted st) p =
     (case saveState st (stored p) of
        (ls, None) \<Rightarrow> p\<lparr>stored := ls\<rparr>
      | (ls, Some c) \<Rightarrow> p\<lparr>stored := ls, awaiting := awaiting p @ [c]\<rparr>)"
| "persistence_step JSON_stringify readable has_room (EncodingDone k) p =
     (if k < length (awaiting p)
      then p\<lparr>stored := saveState_resume JSON_stringify readable has_room (awaiting p ! k) (stored p),
             awaiting := take k (awaiting p) @ drop (Suc k) (awaiting p)\<rparr>
      else p)"

fun run_persistence ::
  "(json \<Rightarrow> string) \<Rightarrow> (media_file \<Rightarrow> bool) \<Rightarrow> (storage \<Rightarrow> bool) \<Rightarrow> persistence_event list
    \<Rightarrow> persistence \<Rightarrow> persistence"
where
  "run_persistence JSON_stringify readable has_room [] p = p"
| "run_persistence JSON_stringify readable has_room (e # es) p =
     run_persistence JSON_stringify readable has_room es
       (persistence_step JSON_stringify readable has_room e p)"

text \<open>For the concrete evaluations below: a parser that knows four stored texts and
  answers on them as \<open>JSON.parse\<close> does (\<open>[1]\<close> is an array holding the number 1, \<open>[]\<close>
  the empty array, \<open>null\<close> is \<open>null\<close>, and \<open>{\<close> is not JSON); and two files, the array of
  their serialized entries, a stringifier that writes that array as the text \<open>stored\<close>, and
  a parser that reads it back.\<close>

definition sample_parse :: "string \<Rightarrow> json option" where
  "sample_parse s =
     (if s = ''[1]'' then Some (JArray [JNumber ''1''])
      else if s = ''[]'' then Some (JArray [])
      else if s = ''null'' then Some JNull
      else None)"

definition sample_a :: media_file where
  "sample_a = \<lparr>bytes = [0, 1, 2], name = ''a.png'', ftype = ''image/png''\<rparr>"

definition sample_b :: media_file where
  "sample_b = \<lparr>bytes = [3, 4], name = ''b.png'', ftype = ''image/png''\<rparr>"

definition sample_entries :: "json list" where
  "sample_entries =
     [JObject [(''dataUrl'', JString ''data:image/png;base64,AAEC''),
               (''name'', JString ''a.png'')],
      JObject [(''dataUrl'', JString ''data:image/png;base64,AwQ=''),
               (''name'', JString ''b.png'')]]"

definition sample_stringify :: "json \<Rightarrow> string" where
  "sample_stringify j = ''stored''"

definition sample_decoded_parse :: "string \<Rightarrow> json option" where
  "sample_decoded_parse s = Some (JArray sample_entries)"

section \<open>Gallery store\<close>

text \<open>
  A saved item of the gallery (\<open>SavedItem\<close>): its key, its file and the time of its
  creation in milliseconds. The object store keeps its records in ascending key order,
  which is the order \<open>getAll\<close> returns them in; \<open>next_key\<close> is the store's key generator,
  which never hands out a key twice.
\<close>

record saved_item =
  item_id :: nat
  item_file :: media_file
  createdAt :: int

record gallery_db =
  records :: "saved_item list"
  next_key :: nat

definition empty_gallery :: gallery_db where
  "empty_gallery = \<lparr>records = [], next_key = 1\<rparr>"

text \<open>\<open>items.sort(compare)\<close>: a stable sort by the comparator, here as insertion from the
  right, which keeps equal items in their original order.\<close>

fun insert_by :: "('a \<Rightarrow> 'a \<Rightarrow> int) \<Rightarrow> 'a \<Rightarrow> 'a list \<Rightarrow> 'a list" where
  "insert_by compare x [] = [x]"
| "insert_by compare x (y # ys) =
     (if compare x y \<le> 0 then x # y # ys else y # insert_by compare x ys)"

definition js_sort :: "('a \<Rightarrow> 'a \<Rightarrow> int) \<Rightarrow> 'a list \<Rightarrow> 'a list" where
  "js_sort compare xs = foldr (insert_by compare) xs []"

definition saveItemToGallery :: "media_file \<Rightarrow> int \<Rightarrow> gallery_db \<Rightarrow> nat \<times> gallery_db" where
  "saveItemToGallery itemFile now db =
     (next_key db,
      \<lparr>records = records db
          @ [\<lparr>item_id = next_key db, item_file = itemFile, createdAt = now\<rparr>],
       next_key = next_key db + 1\<rparr>)"

definition getAllItemsFromGallery :: "gallery_db \<Rightarrow> saved_item list" where
  "getAllItemsFromGallery db = js_sort (\<lambda>a b. createdAt b - createdAt a) (records db)"

definition deleteItemFromGallery :: "nat \<Rightarrow> gallery_db \<Rightarrow> gallery_db" where
  "deleteItemFromGallery k db = db\<lparr>records := filter (\<lambda>i. item_id i \<noteq> k) (records db)\<rparr>"

text \<open>The records of a store lie in strictly ascending key order.\<close>

definition key_ordered :: "gallery_db \<Rightarrow> bool" where
  "key_ordered db = sorted_wrt (\<lambda>a b. item_id a < item_id b) (records db)"

text \<open>The order the specification asks of \<open>listAll\<close> (newest first, later key first among
  equal timestamps), and the order the code produces (newest first, earlier key first
  among equal timestamps).\<close>

definition newest_first_id_desc :: "saved_item \<Rightarrow> saved_item \<Rightarrow> bool" where
  "newest_first_id_desc a b =
     (createdAt a > createdAt b \<or> (createdAt a = createdAt b \<and> item_id a > item_id b))"

definition newest_first_id_asc :: "saved_item \<Rightarrow> saved_item \<Rightarrow> bool" where
  "newest_first_id_asc a b =
     (createdAt a > createdAt b \<or> (createdAt a = createdAt b \<and> item_id a < item_id b))"

section \<open>Object URLs of the displayed images\<close>

text \<open>
  The two effects of \<open>App\<close> that create an object URL for \<open>currentImage\<close> and for
  \<open>originalImage\<close>. An object URL is a number here, \<open>URL.createObjectURL\<close> hands out a
  fresh one each time, and \<open>live_urls\<close> lists the URLs created and not yet revoked, each
  with the role it was created for. \<open>cleanup_of\<close> holds, per role, the URL that the
  cleanup function returned by the last run of the effect will revoke, and \<open>url_state\<close> the
  state cells \<open>currentImageUrl\<close> and \<open>originalImageUrl\<close>.
\<close>

datatype role = Current | Original

record url_state =
  live_urls :: "(nat \<times> role) list"
  next_url :: nat
  cleanup_of :: "role \<Rightarrow> nat option"
  image_url :: "role \<Rightarrow> nat option"

definition initial_urls :: url_state where
  "initial_urls =
     \<lparr>live_urls = [], next_url = 0, cleanup_of = (\<lambda>r. None), image_url = (\<lambda>r. None)\<rparr>"

definition createObjectURL :: "role \<Rightarrow> url_state \<Rightarrow> nat \<times> url_state" where
  "createObjectURL r us =
     (next_url us, us\<lparr>live_urls := (next_url us, r) # live_urls us, next_url := next_url us + 1\<rparr>)"

definition revokeObjectURL :: "nat \<Rightarrow> url_state \<Rightarrow> url_state" where
  "revokeObjectURL u us = us\<lparr>live_urls := filter (\<lambda>p. fst p \<noteq> u) (live_urls us)\<rparr>"

text \<open>The body of the effect of a role, run with the image the role shows now.\<close>

definition run_effect :: "role \<Rightarrow> media_file option \<Rightarrow> url_state \<Rightarrow> url_state" where
  "run_effect r img us =
     (case img of
        Some f \<Rightarrow>
          (let (url, us1) = createObjectURL r us
           in us1\<lparr>image_url := (image_url us1)(r := Some url),
                  cleanup_of := (cleanup_of us1)(r := Some url)\<rparr>)
      | None \<Rightarrow>
          us\<lparr>image_url := (image_url us)(r := None), cleanup_of := (cleanup_of us)(r := None)\<rparr>)"

text \<open>
  What React does with an effect: before the effect runs again (its dependency, the image
  of the role, has changed) and when the component unmounts, the cleanup function of the
  last run is called, if that run returned one.
\<close>

definition run_cleanup :: "role \<Rightarrow> url_state \<Rightarrow> url_state" where
  "run_cleanup r us =
     (case cleanup_of us r of
        Some u \<Rightarrow> (revokeObjectURL u us)\<lparr>cleanup_of := (cleanup_of us)(r := None)\<rparr>
      | None \<Rightarrow> us)"

definition rerun_effect :: "role \<Rightarrow> media_file option \<Rightarrow> url_state \<Rightarrow> url_state" where
  "rerun_effect r img us = run_effect r img (run_cleanup r us)"

datatype effect_event = ImageChanged role "media_file option" | Unmounted

fun effect_step :: "effect_event \<Rightarrow> url_state \<Rightarrow> url_state" where
  "effect_step (ImageChanged r img) us = rerun_effect r img us"
| "effect_step Unmounted us = run_cleanup Original (run_cleanup Current us)"

fun run_effects :: "effect_event list \<Rightarrow> url_state \<Rightarrow> url_state" where
  "run_effects [] us = us"
| "run_effects (e # es) us = run_effects es (effect_step e us)"

definition live_count :: "role \<Rightarrow> url_state \<Rightarrow> nat" where
  "live_count r us = length (filter (\<lambda>p. snd p = r) (live_urls us))"

section \<open>Notions used in the proofs\<close>

text \<open>
  The base64 text of a byte sequence, taken apart for the proofs: the sextets that the
  characters before the padding stand for, and the padding.
\<close>

fun encode_sextets :: "8 word list \<Rightarrow> nat list" where
  "encode_sextets (x # y # z # rest) =
     (let n = unat x * 65536 + unat y * 256 + unat z
      in [n div 262144 mod 64, n div 4096 mod 64, n div 64 mod 64, n mod 64])
     @ encode_sextets rest"
| "encode_sextets [x, y] =
     (let n = (unat x * 256 + unat y) * 4
      in [n div 4096 mod 64, n div 64 mod 64, n mod 64])"
| "encode_sextets [x] = (let n = unat x * 16 in [n div 64 mod 64, n mod 64])"
| "encode_sextets [] = []"

fun encode_padding :: "8 word list \<Rightarrow> string" where
  "encode_padding (x # y # z # rest) = encode_padding rest"
| "encode_padding [x, y] = ''=''"
| "encode_padding [x] = ''==''"
| "encode_padding [] = []"

text \<open>A MIME type that survives the data URL: not empty, free of commas and semicolons,
  and in the form every \<open>File\<close> keeps its type in (printable ASCII, lowercase).\<close>

definition plain_type :: "string \<Rightarrow> bool" where
  "plain_type t =
     (t \<noteq> [] \<and> CHR '','' \<notin> set t \<and> CHR '';'' \<notin> set t \<and> normalize_type t = t)"

text \<open>Saving and deleting keep the records in ascending key order, with every key below
  the next key of the generator.\<close>

definition store_ok :: "gallery_db \<Rightarrow> bool" where
  "store_ok db = (key_ordered db \<and> list_all (\<lambda>i. item_id i < next_key db) (records db))"

text \<open>
  The invariant of the two effects: the live URLs are distinct and older than the next
  fresh one, and the live URLs of a role are exactly the URL that the role's pending
  cleanup will revoke, if there is one.
\<close>

definition bound_urls :: "role \<Rightarrow> url_state \<Rightarrow> (nat \<times> role) list" where
  "bound_urls r us = (case cleanup_of us r of Some u \<Rightarrow> [(u, r)] | None \<Rightarrow> [])"

definition urls_ok :: "url_state \<Rightarrow> bool" where
  "urls_ok us =
     (distinct (map fst (live_urls us))
      \<and> list_all (\<lambda>p. fst p < next_url us) (live_urls us)
      \<and> (\<forall>r. filter (\<lambda>p. snd p = r) (live_urls us) = bound_urls r us))"

section \<open>Properties of the history stack\<close>

lemma slice0_valid:
  "- 1 \<le> i \<Longrightarrow> i \<le> int (length xs) - 1 \<Longrightarrow> slice0 xs (i + 1) = take (nat (i + 1)) xs"
  by (simp add: slice0_def Let_def)

lemma valid_addImageToHistory:
  "valid_stack st \<Longrightarrow> valid_stack (addImageToHistory f st)"
  by (simp add: valid_stack_def addImageToHistory_def Let_def)

lemma valid_handleUndo: "valid_stack st \<Longrightarrow> valid_stack (handleUndo st)"
  by (simp add: valid_stack_def handleUndo_def canUndo_def)

lemma valid_handleRedo: "valid_stack st \<Longrightarrow> valid_stack (handleRedo st)"
  by (simp add: valid_stack_def handleRedo_def canRedo_def)

lemma valid_apply_history_op: "valid_stack st \<Longrightarrow> valid_stack (apply_history_op x st)"
  by (cases x) (simp_all add: valid_addImageToHistory valid_handleUndo valid_handleRedo)

lemma valid_run_history_ops: "valid_stack st \<Longrightarrow> valid_stack (run_history_ops ops st)"
  by (induction ops arbitrary: st) (simp_all add: valid_apply_history_op)

text \<open>
  Claim C1. Starting from a state whose index lies in \<open>[-1, length - 1]\<close>, every sequence
  of append, undo and redo calls ends in a state whose index lies in \<open>[-1, length - 1]\<close>
  again, and whose sequence has a length of at least 0.
\<close>

theorem history_ops_keep_index_in_range:
  assumes "- 1 \<le> historyIndex st"
    and "historyIndex st \<le> int (length (history st)) - 1"
  shows "- 1 \<le> historyIndex (run_history_ops ops st)
       \<and> historyIndex (run_history_ops ops st) \<le> int (length (history (run_history_ops ops st))) - 1
       \<and> 0 \<le> int (length (history (run_history_ops ops st)))"
proof -
  from assms have "valid_stack st"
    by (simp add: valid_stack_def)
  then have "valid_stack (run_history_ops ops st)"
    by (rule valid_run_history_ops)
  then show ?thesis
    by (simp add: valid_stack_def)
qed

theorem history_ops_keep_index_in_range_witness:
  "historyIndex (run_history_ops
       [Append (sample_file ''a''), Append (sample_file ''b''), Undo,
        Append (sample_file ''c''), Undo, Redo, Redo]
       (sample_state [] (- 1))) = 1
   \<and> length (history (run_history_ops
       [Append (sample_file ''a''), Append (sample_file ''b''), Undo,
        Append (sample_file ''c''), Undo, Redo, Redo]
       (sample_state [] (- 1)))) = 2"
  using history_ops_keep_index_in_range
    [of "sample_state [] (- 1)"
        "[Append (sample_file ''a''), Append (sample_file ''b''), Undo,
          Append (sample_file ''c''), Undo, Redo, Redo]"]
  by (simp add: sample_state_def sample_file_def addImageToHistory_def handleUndo_def
      handleRedo_def canUndo_def canRedo_def slice0_def Let_def)

text \<open>
  Claim C2. On a stack with a valid index, appending a media object \<open>m\<close> keeps the
  positions \<open>0..currentIndex\<close> of the sequence, drops everything after them, puts \<open>m\<close>
  last and makes the index the new last position. In particular, from the sequence
  \<open>[A, B]\<close> with index 0, appending \<open>C\<close> gives \<open>[A, C]\<close> with index 1, and \<open>B\<close> (an object
  other than \<open>A\<close> and \<open>C\<close>) is no longer in the stack.
\<close>

theorem append_truncates_to_current_then_appends:
  "(- 1 \<le> historyIndex st \<and> historyIndex st \<le> int (length (history st)) - 1 \<longrightarrow>
      history (addImageToHistory m st) = take (nat (historyIndex st + 1)) (history st) @ [m]
      \<and> historyIndex (addImageToHistory m st)
          = int (length (history (addImageToHistory m st))) - 1
      \<and> historyIndex (addImageToHistory m st) = historyIndex st + 1)
   \<and> (history st = [A, B] \<and> historyIndex st = 0 \<longrightarrow>
      history (addImageToHistory C st) = [A, C]
      \<and> historyIndex (addImageToHistory C st) = 1
      \<and> (B \<noteq> A \<and> B \<noteq> C \<longrightarrow> B \<notin> set (history (addImageToHistory C st))))"
proof (intro conjI impI)
  assume v: "- 1 \<le> historyIndex st \<and> historyIndex st \<le> int (length (history st)) - 1"
  then have s: "slice0 (history st) (historyIndex st + 1)
      = take (nat (historyIndex st + 1)) (history st)"
    by (simp add: slice0_valid)
  show "history (addImageToHistory m st) = take (nat (historyIndex st + 1)) (history st) @ [m]"
    using s by (simp add: addImageToHistory_def Let_def)
  show "historyIndex (addImageToHistory m st)
      = int (length (history (addImageToHistory m st))) - 1"
    by (simp add: addImageToHistory_def Let_def)
  show "historyIndex (addImageToHistory m st) = historyIndex st + 1"
    using v s by (auto simp add: addImageToHistory_def Let_def min_def)
next
  assume ab: "history st = [A, B] \<and> historyIndex st = 0"
  then show h: "history (addImageToHistory C st) = [A, C]"
    by (simp add: addImageToHistory_def Let_def slice0_def)
  from ab show "historyIndex (addImageToHistory C st) = 1"
    by (simp add: addImageToHistory_def Let_def slice0_def)
  assume "B \<noteq> A \<and> B \<noteq> C"
  with h show "B \<notin> set (history (addImageToHistory C st))"
    by simp
qed

theorem append_truncates_to_current_then_appends_witness:
  "history (addImageToHistory (sample_file ''C'')
       (sample_state [sample_file ''A'', sample_file ''B''] 0))
     = [sample_file ''A'', sample_file ''C'']
   \<and> historyIndex (addImageToHistory (sample_file ''C'')
       (sample_state [sample_file ''A'', sample_file ''B''] 0)) = 1
   \<and> sample_file ''B'' \<notin> set (history (addImageToHistory (sample_file ''C'')
       (sample_state [sample_file ''A'', sample_file ''B''] 0)))"
  using append_truncates_to_current_then_appends
    [of "sample_state [sample_file ''A'', sample_file ''B''] 0" "sample_file ''C''"
        "sample_file ''A''" "sample_file ''B''" "sample_file ''C''"]
  by (simp add: sample_state_def sample_file_def)

text \<open>
  Claim C5. Undo changes nothing (neither the sequence nor the index, nor anything else)
  unless the index is greater than 0; then it lowers the index by exactly 1 and keeps the
  sequence. Redo changes nothing unless the index is below \<open>length - 1\<close>; then it raises
  the index by exactly 1 and keeps the sequence.
\<close>

theorem undo_redo_step_or_noop:
  "(\<not> historyIndex st > 0 \<longrightarrow> handleUndo st = st)
   \<and> (historyIndex st > 0 \<longrightarrow>
        history (handleUndo st) = history st
        \<and> historyIndex (handleUndo st) = historyIndex st - 1)
   \<and> (\<not> historyIndex st < int (length (history st)) - 1 \<longrightarrow> handleRedo st = st)
   \<and> (historyIndex st < int (length (history st)) - 1 \<longrightarrow>
        history (handleRedo st) = history st
        \<and> historyIndex (handleRedo st) = historyIndex st + 1)"
  by (simp add: handleUndo_def handleRedo_def canUndo_def canRedo_def)

theorem undo_redo_step_or_noop_witness:
  "historyIndex (handleUndo (sample_state [sample_file ''A'', sample_file ''B''] 1)) = 0
   \<and> history (handleUndo (sample_state [sample_file ''A'', sample_file ''B''] 1))
       = [sample_file ''A'', sample_file ''B'']
   \<and> handleRedo (sample_state [sample_file ''A'', sample_file ''B''] 1)
       = sample_state [sample_file ''A'', sample_file ''B''] 1
   \<and> historyIndex (handleRedo (sample_state [sample_file ''A'', sample_file ''B''] 0)) = 1
   \<and> history (handleRedo (sample_state [sample_file ''A'', sample_file ''B''] 0))
       = [sample_file ''A'', sample_file ''B'']
   \<and> handleUndo (sample_state [sample_file ''A'', sample_file ''B''] 0)
       = sample_state [sample_file ''A'', sample_file ''B''] 0"
  using undo_redo_step_or_noop [of "sample_state [sample_file ''A'', sample_file ''B''] 1"]
    undo_redo_step_or_noop [of "sample_state [sample_file ''A'', sample_file ''B''] 0"]
  by (simp add: sample_state_def)

section \<open>Properties of the media codec\<close>

lemma byte_of_char_of_unat: "(of_char (char_of (unat (w::8 word))) :: 8 word) = w"
proof -
  have "unat w < 256"
    using unsigned_less [of w, where ?'a = nat] by simp
  then have "unat w mod 256 = unat w"
    by simp
  moreover have "(of_char (char_of (unat w)) :: 8 word) = of_nat (of_char (char_of (unat w)) :: nat)"
    by (simp only: of_nat_of_char)
  ultimately show ?thesis
    by simp
qed

lemma fill_u8arr_take:
  "n \<le> length bstr \<Longrightarrow> length u8arr = length bstr \<Longrightarrow>
   fill_u8arr n bstr u8arr = map of_char (take n bstr) @ drop n u8arr"
proof (induction n arbitrary: u8arr)
  case 0
  then show ?case by simp
next
  case (Suc n)
  then have "fill_u8arr (Suc n) bstr u8arr
      = map of_char (take n bstr) @ drop n (u8arr[n := of_char (bstr ! n)])"
    by simp
  also have "drop n (u8arr[n := of_char (bstr ! n)]) = of_char (bstr ! n) # drop (Suc n) u8arr"
    using Suc.prems by (simp add: drop_update_cancel Cons_nth_drop_Suc [symmetric] upd_conv_take_nth_drop)
  finally show ?case
    using Suc.prems by (simp add: take_Suc_conv_app_nth)
qed

lemma fill_u8arr_all:
  "fill_u8arr (length bstr) bstr (replicate (length bstr) 0) = map of_char bstr"
  by (simp add: fill_u8arr_take)

lemma index_of_nth: "distinct xs \<Longrightarrow> i < length xs \<Longrightarrow> index_of (xs ! i) xs = Some i"
proof (induction xs arbitrary: i)
  case Nil
  then show ?case by simp
next
  case (Cons y ys)
  show ?case
  proof (cases i)
    case 0
    then show ?thesis by simp
  next
    case (Suc j)
    with Cons.prems have "ys ! j \<noteq> y" "index_of (ys ! j) ys = Some j"
      using Cons.IH [of j] by auto
    with Suc show ?thesis by simp
  qed
qed

lemma length_base64_alphabet: "length base64_alphabet = 64"
  by (simp add: base64_alphabet_def)

lemma distinct_base64_alphabet: "distinct base64_alphabet"
  by (simp add: base64_alphabet_def)

lemma base64_value_char: "base64_value (base64_char i) = Some (i mod 64)"
  by (simp add: base64_value_def base64_char_def index_of_nth distinct_base64_alphabet
      length_base64_alphabet)

lemma base64_char_in_alphabet: "base64_char i \<in> set base64_alphabet"
  by (simp add: base64_char_def length_base64_alphabet)

lemma base64_char_plain:
  "base64_char i \<noteq> CHR ''=''" "\<not> is_ascii_whitespace (base64_char i)"
proof -
  have "\<forall>c \<in> set base64_alphabet. c \<noteq> CHR ''='' \<and> \<not> is_ascii_whitespace c"
    by (simp add: base64_alphabet_def is_ascii_whitespace_def)
  then show "base64_char i \<noteq> CHR ''=''" "\<not> is_ascii_whitespace (base64_char i)"
    using base64_char_in_alphabet [of i] by blast+
qed


lemma base64_char_mod: "base64_char (i mod 64) = base64_char i"
  by (simp add: base64_char_def)

lemma base64_encode_split:
  "base64_encode bs = map base64_char (encode_sextets bs) @ encode_padding bs"
  by (induction bs rule: base64_encode.induct) (simp_all add: Let_def base64_char_mod)

lemma encode_sextets_bound: "v \<in> set (encode_sextets bs) \<Longrightarrow> v < 64"
  by (induction bs arbitrary: v rule: encode_sextets.induct) (auto simp: Let_def)

lemma encode_padding_cases:
  "encode_padding bs = [] \<or> encode_padding bs = ''='' \<or> encode_padding bs = ''==''"
  by (induction bs rule: encode_padding.induct) simp_all

lemma length_base64_encode: "length (base64_encode bs) mod 4 = 0"
  by (induction bs rule: base64_encode.induct) (simp_all add: Let_def)

lemma length_encode_sextets_not_1: "length (encode_sextets bs) mod 4 \<noteq> 1"
  by (induction bs rule: encode_sextets.induct) (simp_all add: Let_def)

lemma those_base64_value:
  "those (map base64_value (map base64_char vs)) = Some (map (\<lambda>i. i mod 64) vs)"
  by (induction vs) (simp_all add: base64_value_char)

lemma map_mod_encode_sextets: "map (\<lambda>i. i mod 64) (encode_sextets bs) = encode_sextets bs"
  by (rule map_idI) (simp add: encode_sextets_bound)

lemma strip_padding_encode:
  assumes "CHR ''='' \<notin> set xs"
    and "p = [] \<or> p = ''='' \<or> p = ''==''"
  shows "strip_padding (xs @ p) = xs"
proof -
  have l: "xs \<noteq> [] \<Longrightarrow> last xs \<noteq> CHR ''=''"
    using assms(1) last_in_set by metis
  from assms(2) consider "p = []" | "p = ''=''" | "p = ''==''"
    by blast
  then show ?thesis
  proof cases
    case 1
    with l show ?thesis by (auto simp: strip_padding_def)
  next
    case 2
    with l show ?thesis by (auto simp: strip_padding_def)
  next
    case 3
    then have "xs @ p = (xs @ [CHR ''='']) @ [CHR ''='']"
      by simp
    then show ?thesis
      using l by (simp add: strip_padding_def del: append_assoc)
  qed
qed

lemma recombine_sextets:
  fixes n :: nat
  assumes "n < 16777216"
  shows "((n div 262144 mod 64 * 64 + n div 4096 mod 64) * 64 + n div 64 mod 64) * 64
           + n mod 64 = n"
proof -
  have "n div 262144 < 64"
    using assms by (simp add: div_less_iff_less_mult)
  then have a: "n div 262144 mod 64 = n div 262144"
    by simp
  have "n div 4096 div 64 * 64 + n div 4096 mod 64 = n div 4096"
    by (rule div_mult_mod_eq)
  then have b: "n div 262144 * 64 + n div 4096 mod 64 = n div 4096"
    using div_mult2_eq [of n 4096 64] by simp
  have "n div 64 div 64 * 64 + n div 64 mod 64 = n div 64"
    by (rule div_mult_mod_eq)
  then have c: "n div 4096 * 64 + n div 64 mod 64 = n div 64"
    using div_mult2_eq [of n 64 64] by simp
  have d: "n div 64 * 64 + n mod 64 = n"
    by (rule div_mult_mod_eq)
  show ?thesis
    by (simp only: a b c d)
qed

lemma bytes_of_triple:
  fixes x y z :: nat
  assumes "x < 256" "y < 256" "z < 256"
  shows "(x * 65536 + y * 256 + z) div 65536 mod 256 = x"
    and "(x * 65536 + y * 256 + z) div 256 mod 256 = y"
    and "(x * 65536 + y * 256 + z) mod 256 = z"
proof -
  have "y * 256 + z < 65536"
    using assms by simp
  then have "(x * 65536 + y * 256 + z) div 65536 = x"
    by (simp add: add.assoc)
  then show "(x * 65536 + y * 256 + z) div 65536 mod 256 = x"
    using assms by simp
  have e: "x * 65536 + y * 256 + z = (x * 256 + y) * 256 + z"
    by simp
  have "((x * 256 + y) * 256 + z) div 256 = x * 256 + y"
    using assms by simp
  then show "(x * 65536 + y * 256 + z) div 256 mod 256 = y"
    unfolding e using assms by simp
  show "(x * 65536 + y * 256 + z) mod 256 = z"
    unfolding e using assms(3) by (simp only: mod_mult_self3 mod_less)
qed

lemma recombine_three:
  fixes n :: nat
  assumes "n < 262144"
  shows "(n div 4096 mod 64 * 64 + n div 64 mod 64) * 64 + n mod 64 = n"
proof -
  have "n div 4096 < 64"
    using assms by (simp add: div_less_iff_less_mult)
  then have a: "n div 4096 mod 64 = n div 4096"
    by simp
  have "n div 64 div 64 * 64 + n div 64 mod 64 = n div 64"
    by (rule div_mult_mod_eq)
  then have c: "n div 4096 * 64 + n div 64 mod 64 = n div 64"
    using div_mult2_eq [of n 64 64] by simp
  have d: "n div 64 * 64 + n mod 64 = n"
    by (rule div_mult_mod_eq)
  show ?thesis
    by (simp only: a c d)
qed

lemma recombine_two:
  fixes n :: nat
  assumes "n < 4096"
  shows "n div 64 mod 64 * 64 + n mod 64 = n"
proof -
  have "n div 64 < 64"
    using assms by (simp add: div_less_iff_less_mult)
  then have a: "n div 64 mod 64 = n div 64"
    by simp
  have d: "n div 64 * 64 + n mod 64 = n"
    by (rule div_mult_mod_eq)
  show ?thesis
    by (simp only: a d)
qed

lemma unat_byte_less: "unat (w :: 8 word) < 256"
  using unsigned_less [of w, where ?'a = nat] by simp

lemma decode_encode_triple:
  "decode_sextets (encode_sextets (x # y # z # rest))
     = [char_of (unat x), char_of (unat y), char_of (unat z)]
       @ decode_sextets (encode_sextets rest)"
proof -
  define n where "n = unat x * 65536 + unat y * 256 + unat z"
  define m where "m = ((n div 262144 mod 64 * 64 + n div 4096 mod 64) * 64 + n div 64 mod 64) * 64
      + n mod 64"
  have b: "unat x < 256" "unat y < 256" "unat z < 256"
    by (rule unat_byte_less)+
  then have "n < 16777216"
    by (simp add: n_def)
  then have mn: "m = n"
    unfolding m_def by (rule recombine_sextets)
  have c1: "char_of (m div 65536) = char_of (unat x)"
    unfolding mn n_def char_of_quasi_inj using bytes_of_triple(1) [OF b] b(1) by simp
  have c2: "char_of (m div 256) = char_of (unat y)"
    unfolding mn n_def char_of_quasi_inj using bytes_of_triple(2) [OF b] b(2) by simp
  have c3: "char_of m = char_of (unat z)"
    unfolding mn n_def char_of_quasi_inj using bytes_of_triple(3) [OF b] b(3) by simp
  have "decode_sextets (encode_sextets (x # y # z # rest))
      = [char_of (m div 65536), char_of (m div 256), char_of m]
        @ decode_sextets (encode_sextets rest)"
    by (simp only: encode_sextets.simps decode_sextets.simps Let_def append_Cons append_Nil
        m_def n_def)
  then show ?thesis
    by (simp only: c1 c2 c3)
qed

lemma decode_encode_pair:
  "decode_sextets (encode_sextets [x, y]) = [char_of (unat x), char_of (unat y)]"
proof -
  define n where "n = (unat x * 256 + unat y) * 4"
  define m where "m = (n div 4096 mod 64 * 64 + n div 64 mod 64) * 64 + n mod 64"
  have b: "unat x < 256" "unat y < 256"
    by (rule unat_byte_less)+
  then have "n < 262144"
    by (simp add: n_def)
  then have mn: "m = n"
    unfolding m_def by (rule recombine_three)
  have q: "n div 4 = unat x * 256 + unat y"
    by (simp add: n_def)
  have c1: "char_of (m div 4 div 256) = char_of (unat x)"
    unfolding mn q using b by simp
  have "(unat x * 256 + unat y) mod 256 = unat y mod 256"
    by (rule mod_mult_self3)
  then have c2: "char_of (m div 4) = char_of (unat y)"
    unfolding mn q char_of_quasi_inj .
  have "decode_sextets (encode_sextets [x, y]) = [char_of (m div 4 div 256), char_of (m div 4)]"
    by (simp only: encode_sextets.simps decode_sextets.simps Let_def m_def n_def)
  then show ?thesis
    by (simp only: c1 c2)
qed

lemma decode_encode_single:
  "decode_sextets (encode_sextets [x]) = [char_of (unat x)]"
proof -
  define n where "n = unat x * 16"
  define m where "m = n div 64 mod 64 * 64 + n mod 64"
  have "unat x < 256"
    by (rule unat_byte_less)
  then have "n < 4096"
    by (simp add: n_def)
  then have mn: "m = n"
    unfolding m_def by (rule recombine_two)
  have q: "n div 16 = unat x"
    by (simp add: n_def)
  have "decode_sextets (encode_sextets [x]) = [char_of (m div 16)]"
    by (simp only: encode_sextets.simps decode_sextets.simps Let_def m_def n_def)
  then show ?thesis
    by (simp only: mn q)
qed

lemma decode_encode_sextets:
  "decode_sextets (encode_sextets bs) = map (\<lambda>w. char_of (unat w)) bs"
proof (induction bs rule: encode_sextets.induct)
  case (1 x y z rest)
  then show ?case
    by (simp only: decode_encode_triple) simp
next
  case (2 x y)
  show ?case
    by (simp only: decode_encode_pair) simp
next
  case (3 x)
  show ?case
    by (simp only: decode_encode_single) simp
next
  case 4
  show ?case by simp
qed

lemma base64_encode_chars_plain:
  "c \<in> set (base64_encode bs) \<Longrightarrow> \<not> is_ascii_whitespace c \<and> c \<noteq> CHR '',''"
proof -
  assume c: "c \<in> set (base64_encode bs)"
  have a: "\<forall>c \<in> set base64_alphabet. \<not> is_ascii_whitespace c \<and> c \<noteq> CHR '',''"
    by (simp add: base64_alphabet_def is_ascii_whitespace_def)
  have p: "\<forall>c \<in> set (encode_padding bs). c = CHR ''=''"
    using encode_padding_cases [of bs] by auto
  from c have "c \<in> base64_char ` set (encode_sextets bs) \<or> c \<in> set (encode_padding bs)"
    by (simp add: base64_encode_split)
  then show ?thesis
  proof
    assume "c \<in> base64_char ` set (encode_sextets bs)"
    then have "c \<in> set base64_alphabet"
      using base64_char_in_alphabet by auto
    with a show ?thesis by blast
  next
    assume "c \<in> set (encode_padding bs)"
    with p have "c = CHR ''=''" by blast
    then show ?thesis by (simp add: is_ascii_whitespace_def)
  qed
qed

lemma split_on_no_sep: "sep \<notin> set s \<Longrightarrow> split_on sep s = [s]"
  by (induction s) auto

lemma split_on_append:
  "sep \<notin> set a \<Longrightarrow> split_on sep (a @ sep # b) = a # split_on sep b"
  by (induction a) auto

lemma lazy_until_semicolon_append:
  "CHR '';'' \<notin> set t \<Longrightarrow> list_all (\<lambda>c. \<not> is_line_terminator c) t \<Longrightarrow>
   lazy_until_semicolon (t @ CHR '';'' # rest) = Some t"
  by (induction t) auto

lemma normalized_type_printable:
  assumes "normalize_type t = t"
  shows "list_all (\<lambda>c. \<not> is_line_terminator c) t"
proof (cases "t = []")
  case True
  then show ?thesis by simp
next
  case False
  with assms have "list_all (\<lambda>c. 32 \<le> (of_char c :: nat) \<and> (of_char c :: nat) \<le> 126) t"
    by (auto simp: normalize_type_def split: if_splits)
  then show ?thesis
    by (rule list.pred_mono_strong) (auto simp: is_line_terminator_def)
qed

lemma bytes_of_binary_string:
  "map of_char (map (\<lambda>w. char_of (unat w)) bs) = (bs :: 8 word list)"
  by (induction bs) (simp_all add: byte_of_char_of_unat)

lemma atob_base64_encode:
  "atob (base64_encode bs) = Some (map (\<lambda>w. char_of (unat w)) bs)"
proof -
  let ?body = "map base64_char (encode_sextets bs)"
  have f1: "filter (\<lambda>c. \<not> is_ascii_whitespace c) (base64_encode bs) = base64_encode bs"
    by (rule filter_True) (simp add: base64_encode_chars_plain)
  have "CHR ''='' \<notin> base64_char ` set (encode_sextets bs)"
    using base64_char_plain(1) by (metis imageE)
  then have "CHR ''='' \<notin> set ?body"
    by simp
  then have f2: "strip_padding (base64_encode bs) = ?body"
    unfolding base64_encode_split using encode_padding_cases [of bs]
    by (rule strip_padding_encode)
  have f3: "(length ?body mod 4 = 1) = False"
    using length_encode_sextets_not_1 [of bs] by simp
  have f4: "those (map base64_value ?body) = Some (encode_sextets bs)"
    by (simp only: those_base64_value map_mod_encode_sextets)
  show ?thesis
    unfolding atob_def Let_def f1
    by (simp only: length_base64_encode simp_thms if_True f2 f3 if_False f4 option.case
        decode_encode_sextets)
qed

lemma dataURLtoFile_readAsDataURL:
  assumes "ftype f \<noteq> []"
    and "CHR '','' \<notin> set (ftype f)"
    and "CHR '';'' \<notin> set (ftype f)"
    and "normalize_type (ftype f) = ftype f"
  shows "dataURLtoFile (readAsDataURL f) filename
       = Inr \<lparr>bytes = bytes f, name = filename, ftype = ftype f\<rparr>"
proof -
  let ?head = "''data:'' @ ftype f @ '';base64''"
  let ?b64 = "base64_encode (bytes f)"
  have url: "readAsDataURL f = ?head @ CHR '','' # ?b64"
    using assms(1) by (simp add: readAsDataURL_def)
  have h: "CHR '','' \<notin> set ?head"
    using assms(2) by simp
  have b: "CHR '','' \<notin> set ?b64"
    using base64_encode_chars_plain by blast
  have arr: "split_on (CHR '','') (readAsDataURL f) = [?head, ?b64]"
    unfolding url by (simp only: split_on_append [OF h] split_on_no_sep [OF b])
  have "lazy_until_semicolon (ftype f @ CHR '';'' # ''base64'') = Some (ftype f)"
    using assms(3) normalized_type_printable [OF assms(4)]
    by (rule lazy_until_semicolon_append)
  then have mime: "match_mime ?head = Some (ftype f)"
    by simp
  have n0: "[?head, ?b64] ! 0 = ?head" and n1: "[?head, ?b64] ! 1 = ?b64"
    by simp_all
  have len: "\<not> length [?head, ?b64] < 2"
    by simp
  have u8: "fill_u8arr (length (map (\<lambda>w. char_of (unat w)) (bytes f)))
        (map (\<lambda>w. char_of (unat w)) (bytes f))
        (replicate (length (map (\<lambda>w. char_of (unat w)) (bytes f))) 0) = bytes f"
    by (simp only: fill_u8arr_all bytes_of_binary_string)
  show ?thesis
    unfolding dataURLtoFile_def arr Let_def n0 n1 mime atob_base64_encode
    by (simp only: len if_False option.case assms(1) u8 new_File_def assms(4))
qed

lemma plain_type_png: "plain_type ''image/png''"
  by (simp add: plain_type_def normalize_type_def ascii_lowercase_def)

lemma plain_type_mp4: "plain_type ''video/mp4''"
  by (simp add: plain_type_def normalize_type_def ascii_lowercase_def)

text \<open>
  Claim C4. For every media object \<open>m\<close> of a representative type (\<open>image/png\<close>,
  \<open>video/mp4\<close>) that the platform can read, \<open>fileToDataURL\<close> produces an encoded string,
  and \<open>dataURLtoFile\<close> on that string succeeds and gives a media object with the MIME
  type and the bytes of \<open>m\<close>.
\<close>

theorem decode_encode_round_trip:
  assumes "ftype m = ''image/png'' \<or> ftype m = ''video/mp4''"
    and "readable m"
  shows "\<exists>url. fileToDataURL readable m = Inr url
           \<and> dataURLtoFile url filename
               = Inr \<lparr>bytes = bytes m, name = filename, ftype = ftype m\<rparr>"
proof -
  from assms(1) have "plain_type (ftype m)"
    using plain_type_png plain_type_mp4 by auto
  then have "dataURLtoFile (readAsDataURL m) filename
      = Inr \<lparr>bytes = bytes m, name = filename, ftype = ftype m\<rparr>"
    unfolding plain_type_def by (intro dataURLtoFile_readAsDataURL) simp_all
  moreover from assms(2) have "fileToDataURL readable m = Inr (readAsDataURL m)"
    by (simp add: fileToDataURL_def)
  ultimately show ?thesis
    by blast
qed

theorem decode_encode_round_trip_witness:
  "fileToDataURL (\<lambda>f. True)
       \<lparr>bytes = [137, 80, 78, 71, 13], name = ''a.png'', ftype = ''image/png''\<rparr>
     = Inr ''data:image/png;base64,iVBORw0=''
   \<and> dataURLtoFile ''data:image/png;base64,iVBORw0='' ''b.png''
     = Inr \<lparr>bytes = [137, 80, 78, 71, 13], name = ''b.png'', ftype = ''image/png''\<rparr>
   \<and> fileToDataURL (\<lambda>f. True) \<lparr>bytes = [0, 255], name = ''a.mp4'', ftype = ''video/mp4''\<rparr>
     = Inr ''data:video/mp4;base64,AP8=''
   \<and> dataURLtoFile ''data:video/mp4;base64,AP8='' ''b.mp4''
     = Inr \<lparr>bytes = [0, 255], name = ''b.mp4'', ftype = ''video/mp4''\<rparr>"
proof -
  let ?png = "\<lparr>bytes = [137, 80, 78, 71, 13], name = ''a.png'', ftype = ''image/png''\<rparr>"
  let ?mp4 = "\<lparr>bytes = [0, 255], name = ''a.mp4'', ftype = ''video/mp4''\<rparr>"
  have p: "fileToDataURL (\<lambda>f. True) ?png = Inr ''data:image/png;base64,iVBORw0=''"
    by (simp add: fileToDataURL_def readAsDataURL_def base64_char_def base64_alphabet_def)
  have v: "fileToDataURL (\<lambda>f. True) ?mp4 = Inr ''data:video/mp4;base64,AP8=''"
    by (simp add: fileToDataURL_def readAsDataURL_def base64_char_def base64_alphabet_def)
  obtain url where "fileToDataURL (\<lambda>f. True) ?png = Inr url"
    and "dataURLtoFile url ''b.png''
        = Inr \<lparr>bytes = [137, 80, 78, 71, 13], name = ''b.png'', ftype = ''image/png''\<rparr>"
    using decode_encode_round_trip [of ?png "\<lambda>f. True" "''b.png''"] by auto
  with p have dp: "dataURLtoFile ''data:image/png;base64,iVBORw0='' ''b.png''
      = Inr \<lparr>bytes = [137, 80, 78, 71, 13], name = ''b.png'', ftype = ''image/png''\<rparr>"
    by simp
  obtain url' where "fileToDataURL (\<lambda>f. True) ?mp4 = Inr url'"
    and "dataURLtoFile url' ''b.mp4''
        = Inr \<lparr>bytes = [0, 255], name = ''b.mp4'', ftype = ''video/mp4''\<rparr>"
    using decode_encode_round_trip [of ?mp4 "\<lambda>f. True" "''b.mp4''"] by auto
  with v have dv: "dataURLtoFile ''data:video/mp4;base64,AP8='' ''b.mp4''
      = Inr \<lparr>bytes = [0, 255], name = ''b.mp4'', ftype = ''video/mp4''\<rparr>"
    by simp
  show ?thesis
    using p dp v dv by (simp only: simp_thms)
qed

section \<open>Properties of the AI-backed actions\<close>

text \<open>
  Claim C9. When the AI service call of an edit, a filter, an adjustment or an upscale
  fails, the handler leaves the history sequence and the index as they were (nothing is
  appended) and reports the failure through \<open>setError\<close>: the error cell holds the failure
  of that action with the value the service rejected with.
\<close>

theorem failed_action_keeps_history_and_reports:
  "(currentImage st = Some img \<and> js_trim (prompt st) \<noteq> [] \<and> editHotspot st = Some spot
      \<and> generateEditedImage img (prompt st) spot = Inl err \<longrightarrow>
        history (handleGenerate generateEditedImage now st) = history st
        \<and> historyIndex (handleGenerate generateEditedImage now st) = historyIndex st
        \<and> error (handleGenerate generateEditedImage now st) = Some (ActionFailed Edit err))
   \<and> (currentImage st = Some img \<and> generateFilteredImage img p = Inl err \<longrightarrow>
        history (handleApplyFilter generateFilteredImage now p st) = history st
        \<and> historyIndex (handleApplyFilter generateFilteredImage now p st) = historyIndex st
        \<and> error (handleApplyFilter generateFilteredImage now p st)
            = Some (ActionFailed Filter err))
   \<and> (currentImage st = Some img \<and> generateAdjustedImage img p = Inl err \<longrightarrow>
        history (handleApplyAdjustment generateAdjustedImage now p st) = history st
        \<and> historyIndex (handleApplyAdjustment generateAdjustedImage now p st) = historyIndex st
        \<and> error (handleApplyAdjustment generateAdjustedImage now p st)
            = Some (ActionFailed Adjustment err))
   \<and> (currentImage st = Some img \<and> upscaleImage img = Inl err \<longrightarrow>
        history (handleUpscaleImage upscaleImage now st) = history st
        \<and> historyIndex (handleUpscaleImage upscaleImage now st) = historyIndex st
        \<and> error (handleUpscaleImage upscaleImage now st) = Some (ActionFailed Upscale err))"
proof (intro conjI impI)
  assume a: "currentImage st = Some img \<and> js_trim (prompt st) \<noteq> [] \<and> editHotspot st = Some spot
      \<and> generateEditedImage img (prompt st) spot = Inl err"
  then have "handleGenerate generateEditedImage now st
      = st\<lparr>isLoading := True, error := None, error := Some (ActionFailed Edit err),
           isLoading := False\<rparr>"
    by (simp add: handleGenerate_def Let_def)
  then show "history (handleGenerate generateEditedImage now st) = history st"
    and "historyIndex (handleGenerate generateEditedImage now st) = historyIndex st"
    and "error (handleGenerate generateEditedImage now st) = Some (ActionFailed Edit err)"
    by simp_all
next
  assume a: "currentImage st = Some img \<and> generateFilteredImage img p = Inl err"
  then have "handleApplyFilter generateFilteredImage now p st
      = st\<lparr>isLoading := True, error := None, error := Some (ActionFailed Filter err),
           isLoading := False\<rparr>"
    by (simp add: handleApplyFilter_def Let_def)
  then show "history (handleApplyFilter generateFilteredImage now p st) = history st"
    and "historyIndex (handleApplyFilter generateFilteredImage now p st) = historyIndex st"
    and "error (handleApplyFilter generateFilteredImage now p st)
        = Some (ActionFailed Filter err)"
    by simp_all
next
  assume a: "currentImage st = Some img \<and> generateAdjustedImage img p = Inl err"
  then have "handleApplyAdjustment generateAdjustedImage now p st
      = st\<lparr>isLoading := True, error := None, error := Some (ActionFailed Adjustment err),
           isLoading := False\<rparr>"
    by (simp add: handleApplyAdjustment_def Let_def)
  then show "history (handleApplyAdjustment generateAdjustedImage now p st) = history st"
    and "historyIndex (handleApplyAdjustment generateAdjustedImage now p st) = historyIndex st"
    and "error (handleApplyAdjustment generateAdjustedImage now p st)
        = Some (ActionFailed Adjustment err)"
    by simp_all
next
  assume a: "currentImage st = Some img \<and> upscaleImage img = Inl err"
  then have "handleUpscaleImage upscaleImage now st
      = st\<lparr>isLoading := True, error := None, error := Some (ActionFailed Upscale err),
           isLoading := False\<rparr>"
    by (simp add: handleUpscaleImage_def Let_def)
  then show "history (handleUpscaleImage upscaleImage now st) = history st"
    and "historyIndex (handleUpscaleImage upscaleImage now st) = historyIndex st"
    and "error (handleUpscaleImage upscaleImage now st) = Some (ActionFailed Upscale err)"
    by simp_all
qed

theorem failed_action_keeps_history_and_reports_witness:
  "history (handleGenerate (\<lambda>f p h. Inl (Error ''blocked'')) 1700000000000
       ((sample_state [sample_file ''A'', sample_file ''B''] 1)
          \<lparr>prompt := ''sky'', editHotspot := Some (10, 20)\<rparr>))
     = [sample_file ''A'', sample_file ''B'']
   \<and> historyIndex (handleGenerate (\<lambda>f p h. Inl (Error ''blocked'')) 1700000000000
       ((sample_state [sample_file ''A'', sample_file ''B''] 1)
          \<lparr>prompt := ''sky'', editHotspot := Some (10, 20)\<rparr>)) = 1
   \<and> error (handleGenerate (\<lambda>f p h. Inl (Error ''blocked'')) 1700000000000
       ((sample_state [sample_file ''A'', sample_file ''B''] 1)
          \<lparr>prompt := ''sky'', editHotspot := Some (10, 20)\<rparr>))
     = Some (ActionFailed Edit (Error ''blocked''))
   \<and> history (handleApplyFilter (\<lambda>f p. Inl (Error ''blocked'')) 1700000000000 ''sepia''
       ((sample_state [sample_file ''A'', sample_file ''B''] 1)
          \<lparr>prompt := ''sky'', editHotspot := Some (10, 20)\<rparr>))
     = [sample_file ''A'', sample_file ''B'']
   \<and> error (handleApplyFilter (\<lambda>f p. Inl (Error ''blocked'')) 1700000000000 ''sepia''
       ((sample_state [sample_file ''A'', sample_file ''B''] 1)
          \<lparr>prompt := ''sky'', editHotspot := Some (10, 20)\<rparr>))
     = Some (ActionFailed Filter (Error ''blocked''))
   \<and> history (handleApplyAdjustment (\<lambda>f p. Inl (Error ''blocked'')) 1700000000000 ''sepia''
       ((sample_state [sample_file ''A'', sample_file ''B''] 1)
          \<lparr>prompt := ''sky'', editHotspot := Some (10, 20)\<rparr>))
     = [sample_file ''A'', sample_file ''B'']
   \<and> error (handleApplyAdjustment (\<lambda>f p. Inl (Error ''blocked'')) 1700000000000 ''sepia''
       ((sample_state [sample_file ''A'', sample_file ''B''] 1)
          \<lparr>prompt := ''sky'', editHotspot := Some (10, 20)\<rparr>))
     = Some (ActionFailed Adjustment (Error ''blocked''))
   \<and> history (handleUpscaleImage (\<lambda>f. Inl (Error ''blocked'')) 1700000000000
       ((sample_state [sample_file ''A'', sample_file ''B''] 1)
          \<lparr>prompt := ''sky'', editHotspot := Some (10, 20)\<rparr>))
     = [sample_file ''A'', sample_file ''B'']
   \<and> error (handleUpscaleImage (\<lambda>f. Inl (Error ''blocked'')) 1700000000000
       ((sample_state [sample_file ''A'', sample_file ''B''] 1)
          \<lparr>prompt := ''sky'', editHotspot := Some (10, 20)\<rparr>))
     = Some (ActionFailed Upscale (Error ''blocked''))"
proof -
  let ?st = "(sample_state [sample_file ''A'', sample_file ''B''] 1)
      \<lparr>prompt := ''sky'', editHotspot := Some (10, 20)\<rparr>"
  have c: "currentImage ?st = Some (sample_file ''B'')"
    by (simp add: currentImage_def sample_state_def)
  have t: "js_trim (prompt ?st) \<noteq> []"
    by (simp add: js_trim_def is_js_whitespace_def)
  have h: "editHotspot ?st = Some (10, 20)" "history ?st = [sample_file ''A'', sample_file ''B'']"
    "historyIndex ?st = 1"
    by (simp_all add: sample_state_def)
  show ?thesis
    using c t h
      failed_action_keeps_history_and_reports
        [of ?st "sample_file ''B''" "(10, 20)" "\<lambda>f p h. Inl (Error ''blocked'')"
            "Error ''blocked''" 1700000000000 "\<lambda>f p. Inl (Error ''blocked'')" "''sepia''"
            "\<lambda>f p. Inl (Error ''blocked'')" "\<lambda>f. Inl (Error ''blocked'')"]
    by simp
qed

section \<open>Properties of the history persistence\<close>

lemma history_key_neq_index_key: "history_key \<noteq> index_key"
  by (simp add: history_key_def index_key_def)

lemma loadInitialState_try_guard:
  "ls history_key = None \<or> ls history_key = Some [] \<or> ls index_key = None
     \<or> ls index_key = Some [] \<Longrightarrow>
   loadInitialState_try JSON_parse ls = Inr ([], - 1)"
  by (auto simp: loadInitialState_try_def split: option.splits)

lemma loadInitialState_try_unparsable:
  "ls history_key = Some hj \<Longrightarrow> ls index_key = Some ix \<Longrightarrow> hj \<noteq> [] \<Longrightarrow> ix \<noteq> [] \<Longrightarrow>
   JSON_parse hj = None \<Longrightarrow> loadInitialState_try JSON_parse ls = Inl SyntaxError"
  by (simp add: loadInitialState_try_def)

lemma loadInitialState_try_not_array:
  "ls history_key = Some hj \<Longrightarrow> ls index_key = Some ix \<Longrightarrow> hj \<noteq> [] \<Longrightarrow> ix \<noteq> [] \<Longrightarrow>
   JSON_parse hj = Some v \<Longrightarrow> \<forall>items. v \<noteq> JArray items \<Longrightarrow>
   loadInitialState_try JSON_parse ls = Inl TypeError"
  by (cases v) (simp_all add: loadInitialState_try_def)

lemma loadInitialState_try_decode_fails:
  "ls history_key = Some hj \<Longrightarrow> ls index_key = Some ix \<Longrightarrow> hj \<noteq> [] \<Longrightarrow> ix \<noteq> [] \<Longrightarrow>
   JSON_parse hj = Some (JArray items) \<Longrightarrow> map_result decode_item items = Inl e \<Longrightarrow>
   loadInitialState_try JSON_parse ls = Inl e"
  by (simp add: loadInitialState_try_def)


lemma loadInitialState_caught:
  "loadInitialState_try JSON_parse ls = Inl e \<Longrightarrow>
   loadInitialState JSON_parse ls = (ls(history_key := None, index_key := None), ([], - 1))"
  by (simp add: loadInitialState_def)

text \<open>
  Claim C3, as the code has it. When both keys hold a non-empty string and the stored
  history is unparsable, or parses to something other than an array, or has an entry that
  fails to decode, \<open>loadInitialState\<close> removes both keys and returns the empty stack (no
  entries, index \<open>-1\<close>). When a key is absent or holds the empty string, it returns the
  empty stack and leaves the storage as it is. Whatever the \<open>try\<close> block throws is caught:
  the function always returns a storage and a stack.
\<close>

theorem restore_discards_corrupted_state:
  "(ls history_key = Some hj \<and> ls index_key = Some ix \<and> hj \<noteq> [] \<and> ix \<noteq> []
      \<and> (JSON_parse hj = None
          \<or> (\<exists>v. JSON_parse hj = Some v \<and> (\<forall>items. v \<noteq> JArray items))
          \<or> (\<exists>items e. JSON_parse hj = Some (JArray items)
                \<and> map_result decode_item items = Inl e)) \<longrightarrow>
        loadInitialState JSON_parse ls
          = (ls(history_key := None, index_key := None), ([], - 1)))
   \<and> (ls history_key = None \<or> ls history_key = Some [] \<or> ls index_key = None
        \<or> ls index_key = Some [] \<longrightarrow>
        loadInitialState JSON_parse ls = (ls, ([], - 1)))
   \<and> (loadInitialState_try JSON_parse ls = Inl e \<longrightarrow>
        loadInitialState JSON_parse ls
          = (ls(history_key := None, index_key := None), ([], - 1)))"
proof (intro conjI impI)
  assume a: "ls history_key = Some hj \<and> ls index_key = Some ix \<and> hj \<noteq> [] \<and> ix \<noteq> []
      \<and> (JSON_parse hj = None
          \<or> (\<exists>v. JSON_parse hj = Some v \<and> (\<forall>items. v \<noteq> JArray items))
          \<or> (\<exists>items e. JSON_parse hj = Some (JArray items)
                \<and> map_result decode_item items = Inl e))"
  then have "\<exists>e. loadInitialState_try JSON_parse ls = Inl e"
    using loadInitialState_try_unparsable [of ls hj ix JSON_parse]
      loadInitialState_try_not_array [of ls hj ix JSON_parse]
      loadInitialState_try_decode_fails [of ls hj ix JSON_parse]
    by blast
  then show "loadInitialState JSON_parse ls
      = (ls(history_key := None, index_key := None), ([], - 1))"
    using loadInitialState_caught by blast
next
  assume "ls history_key = None \<or> ls history_key = Some [] \<or> ls index_key = None
      \<or> ls index_key = Some []"
  then show "loadInitialState JSON_parse ls = (ls, ([], - 1))"
    by (simp add: loadInitialState_def loadInitialState_try_guard)
next
  assume "loadInitialState_try JSON_parse ls = Inl e"
  then show "loadInitialState JSON_parse ls
      = (ls(history_key := None, index_key := None), ([], - 1))"
    by (rule loadInitialState_caught)
qed

theorem restore_discards_corrupted_state_witness:
  "fst (loadInitialState sample_parse [history_key \<mapsto> ''[1]'', index_key \<mapsto> ''0'']) history_key
     = None
   \<and> fst (loadInitialState sample_parse [history_key \<mapsto> ''[1]'', index_key \<mapsto> ''0'']) index_key
     = None
   \<and> snd (loadInitialState sample_parse [history_key \<mapsto> ''[1]'', index_key \<mapsto> ''0''])
     = ([], - 1)
   \<and> loadInitialState sample_parse [history_key \<mapsto> ''{'', index_key \<mapsto> ''0'']
     = ([history_key \<mapsto> ''{'', index_key \<mapsto> ''0''](history_key := None, index_key := None),
        ([], - 1))
   \<and> loadInitialState sample_parse [history_key \<mapsto> ''null'', index_key \<mapsto> ''0'']
     = ([history_key \<mapsto> ''null'', index_key \<mapsto> ''0''](history_key := None, index_key := None),
        ([], - 1))
   \<and> loadInitialState sample_parse [history_key \<mapsto> ''[1]'']
     = ([history_key \<mapsto> ''[1]''], ([], - 1))"
proof -
  let ?ls = "[history_key \<mapsto> ''[1]'', index_key \<mapsto> ''0'']"
  let ?lb = "[history_key \<mapsto> ''{'', index_key \<mapsto> ''0'']"
  let ?ln = "[history_key \<mapsto> ''null'', index_key \<mapsto> ''0'']"
  let ?lh = "[history_key \<mapsto> ''[1]'']"
  have k: "?ls history_key = Some ''[1]''" "?ls index_key = Some ''0''"
    "?lb history_key = Some ''{''" "?lb index_key = Some ''0''"
    "?ln history_key = Some ''null''" "?ln index_key = Some ''0''"
    "?lh index_key = None"
    by (simp_all add: history_key_neq_index_key history_key_neq_index_key [symmetric])
  have d: "sample_parse ''[1]'' = Some (JArray [JNumber ''1''])"
    "map_result decode_item [JNumber ''1''] = Inl TypeError"
    "sample_parse ''{'' = None" "sample_parse ''null'' = Some JNull"
    by (simp_all add: sample_parse_def decode_item_def get_property_def)
  from d(4) have n: "\<exists>v. sample_parse ''null'' = Some v \<and> (\<forall>items. v \<noteq> JArray items)"
    by simp
  from d(1,2) have e: "\<exists>items e. sample_parse ''[1]'' = Some (JArray items)
      \<and> map_result decode_item items = Inl e"
    by blast
  have "loadInitialState sample_parse ?ls = (?ls(history_key := None, index_key := None), ([], - 1))"
    using restore_discards_corrupted_state [of ?ls "''[1]''" "''0''" sample_parse] k(1,2) e
    by simp
  moreover have "loadInitialState sample_parse ?lb
      = (?lb(history_key := None, index_key := None), ([], - 1))"
    using restore_discards_corrupted_state [of ?lb "''{''" "''0''" sample_parse] k(3,4) d(3)
    by simp
  moreover have "loadInitialState sample_parse ?ln
      = (?ln(history_key := None, index_key := None), ([], - 1))"
    using restore_discards_corrupted_state [of ?ln "''null''" "''0''" sample_parse] k(5,6) n
    by simp
  moreover have "loadInitialState sample_parse ?lh = (?lh, ([], - 1))"
    using restore_discards_corrupted_state [of ?lh _ _ sample_parse] k(7)
    by simp
  ultimately show ?thesis
    by (simp add: history_key_neq_index_key)
qed

text \<open>
  Claim C3 as stated fails: a stored history that is unparsable is left in the storage,
  with its key, when the index key is absent or holds the empty string, because the
  function returns the empty stack before it parses anything.
\<close>

theorem restore_keeps_keys_counterexample:
  "sample_parse ''{'' = None
   \<and> fst (loadInitialState sample_parse [history_key \<mapsto> ''{'']) history_key = Some ''{''
   \<and> fst (loadInitialState sample_parse [history_key \<mapsto> ''{'', index_key \<mapsto> []]) history_key
       = Some ''{''
   \<and> fst (loadInitialState sample_parse [history_key \<mapsto> ''{'', index_key \<mapsto> []]) index_key
       = Some []"
  by (simp add: sample_parse_def loadInitialState_def loadInitialState_try_def
      history_key_neq_index_key history_key_neq_index_key [symmetric])

text \<open>The examples of a corrupted entry: a data URL cut short and one without its prefix
  both make \<open>dataURLtoFile\<close> throw.\<close>

lemma dataURLtoFile_truncated:
  "dataURLtoFile ''data:image/png;base64,iVBOR'' ''a.png'' = Inl InvalidCharacterError"
  by (simp add: dataURLtoFile_def atob_def is_ascii_whitespace_def is_line_terminator_def)

lemma dataURLtoFile_without_prefix:
  "dataURLtoFile ''iVBORw0KGgo='' ''a.png'' = Inl (Error ''Invalid data URL'')"
  by (simp add: dataURLtoFile_def)


lemma decode_sample_entries: "map_result decode_item sample_entries = Inr [sample_a, sample_b]"
proof -
  have a: "dataURLtoFile ''data:image/png;base64,AAEC'' ''a.png'' = Inr sample_a"
    using dataURLtoFile_readAsDataURL [of sample_a "''a.png''"]
    by (simp add: sample_a_def readAsDataURL_def base64_char_def base64_alphabet_def
        normalize_type_def ascii_lowercase_def)
  have b: "dataURLtoFile ''data:image/png;base64,AwQ='' ''b.png'' = Inr sample_b"
    using dataURLtoFile_readAsDataURL [of sample_b "''b.png''"]
    by (simp add: sample_b_def readAsDataURL_def base64_char_def base64_alphabet_def
        normalize_type_def ascii_lowercase_def)
  show ?thesis
    by (simp add: sample_entries_def decode_item_def get_property_def to_file_name_def a b)
qed




lemma saveState_empty_removes_keys:
  "history st = [] \<or> historyIndex st < 0 \<Longrightarrow>
   saveState st ls = (ls(history_key := None, index_key := None), None)"
  by (auto simp: saveState_def)

lemma loadInitialState_without_keys:
  "loadInitialState JSON_parse (ls(history_key := None, index_key := None))
     = (ls(history_key := None, index_key := None), ([], - 1))"
  by (simp add: loadInitialState_def loadInitialState_try_guard)

lemma saveState_after_handleUploadNew:
  "saveState (handleUploadNew mode st) ls = (ls(history_key := None, index_key := None), None)"
  by (simp add: saveState_empty_removes_keys handleUploadNew_def)

lemma serialize_sample_files:
  "map_result (serialize_entry (\<lambda>f. True)) [sample_a, sample_b] = Inr sample_entries"
  by (simp add: serialize_entry_def fileToDataURL_def readAsDataURL_def sample_a_def
      sample_b_def sample_entries_def base64_char_def base64_alphabet_def)

lemma show_int_1: "show_int 1 = ''1''"
  by (simp add: show_int_def show_nat.simps [of "Suc 0"] char_of_eq_iff take_bit_eq_mod)

text \<open>
  Claim C10 fails on the code when a save is still awaiting its encoded files. With the
  history \<open>[a.png, b.png]\<close> at index 1 committed, \<open>saveState\<close> awaits the file readers;
  \<open>handleUploadNew\<close> then empties the history in memory, and the next \<open>saveState\<close> removes
  both keys at once, as the claim says. When the readers of the first call answer, it sets
  both keys, and \<open>loadInitialState\<close> on the storage that results returns the two files
  with index 1, not the empty stack.
\<close>

theorem stale_save_restores_cleared_history:
  "history (handleUploadNew UploadMode (sample_state [sample_a, sample_b] 1)) = []
   \<and> awaiting (run_persistence sample_stringify (\<lambda>f. True) (\<lambda>t. True)
        [StateCommitted (sample_state [sample_a, sample_b] 1),
         StateCommitted (handleUploadNew UploadMode (sample_state [sample_a, sample_b] 1))]
        \<lparr>stored = Map.empty, awaiting = []\<rparr>)
       = [\<lparr>pending_history = [sample_a, sample_b], pending_index = 1\<rparr>]
   \<and> stored (run_persistence sample_stringify (\<lambda>f. True) (\<lambda>t. True)
        [StateCommitted (sample_state [sample_a, sample_b] 1),
         StateCommitted (handleUploadNew UploadMode (sample_state [sample_a, sample_b] 1))]
        \<lparr>stored = Map.empty, awaiting = []\<rparr>) history_key = None
   \<and> stored (run_persistence sample_stringify (\<lambda>f. True) (\<lambda>t. True)
        [StateCommitted (sample_state [sample_a, sample_b] 1),
         StateCommitted (handleUploadNew UploadMode (sample_state [sample_a, sample_b] 1))]
        \<lparr>stored = Map.empty, awaiting = []\<rparr>) index_key = None
   \<and> stored (run_persistence sample_stringify (\<lambda>f. True) (\<lambda>t. True)
        [StateCommitted (sample_state [sample_a, sample_b] 1),
         StateCommitted (handleUploadNew UploadMode (sample_state [sample_a, sample_b] 1)),
         EncodingDone 0]
        \<lparr>stored = Map.empty, awaiting = []\<rparr>) history_key = Some ''stored''
   \<and> stored (run_persistence sample_stringify (\<lambda>f. True) (\<lambda>t. True)
        [StateCommitted (sample_state [sample_a, sample_b] 1),
         StateCommitted (handleUploadNew UploadMode (sample_state [sample_a, sample_b] 1)),
         EncodingDone 0]
        \<lparr>stored = Map.empty, awaiting = []\<rparr>) index_key = Some ''1''
   \<and> snd (loadInitialState sample_decoded_parse
        (stored (run_persistence sample_stringify (\<lambda>f. True) (\<lambda>t. True)
          [StateCommitted (sample_state [sample_a, sample_b] 1),
           StateCommitted (handleUploadNew UploadMode (sample_state [sample_a, sample_b] 1)),
           EncodingDone 0]
          \<lparr>stored = Map.empty, awaiting = []\<rparr>)))
       = ([sample_a, sample_b], 1)"
proof -
  let ?st = "sample_state [sample_a, sample_b] 1"
  let ?c = "\<lparr>pending_history = [sample_a, sample_b], pending_index = 1\<rparr>"
  let ?run = "run_persistence sample_stringify (\<lambda>f. True) (\<lambda>t. True)"
  let ?p0 = "\<lparr>stored = Map.empty, awaiting = []\<rparr>"
  have s1: "saveState ?st ls = (ls, Some ?c)" for ls
    by (simp add: saveState_def sample_state_def)
  have two: "?run [StateCommitted ?st, StateCommitted (handleUploadNew UploadMode ?st)] ?p0
      = \<lparr>stored = Map.empty, awaiting = [?c]\<rparr>"
    by (simp add: s1 saveState_after_handleUploadNew)
  have resume: "saveState_resume sample_stringify (\<lambda>f. True) (\<lambda>t. True) ?c Map.empty
      = [history_key \<mapsto> ''stored'', index_key \<mapsto> ''1'']"
    by (simp add: saveState_resume_def serialize_sample_files setItem_def
        sample_stringify_def show_int_1 del: map_result.simps)
  have three: "?run [StateCommitted ?st, StateCommitted (handleUploadNew UploadMode ?st),
        EncodingDone 0] ?p0
      = \<lparr>stored = [history_key \<mapsto> ''stored'', index_key \<mapsto> ''1''], awaiting = []\<rparr>"
    by (simp add: s1 saveState_after_handleUploadNew resume)
  have n: "parseInt10 ''1'' = Some 1"
    by (simp add: parseInt10_def is_js_whitespace_def is_digit_def)
  have load: "snd (loadInitialState sample_decoded_parse
        [history_key \<mapsto> ''stored'', index_key \<mapsto> ''1'']) = ([sample_a, sample_b], 1)"
    by (simp add: loadInitialState_def loadInitialState_try_def sample_decoded_parse_def
        decode_sample_entries n history_key_neq_index_key
        history_key_neq_index_key [symmetric])
  show ?thesis
    unfolding two three
    by (simp add: load handleUploadNew_def history_key_neq_index_key)
qed

section \<open>Properties of the gallery store\<close>

lemma set_insert_by: "set (insert_by compare x ys) = insert x (set ys)"
  by (induction ys) auto

lemma mset_insert_by: "mset (insert_by compare x ys) = add_mset x (mset ys)"
  by (induction ys) simp_all

lemma mset_js_sort: "mset (js_sort compare xs) = mset xs"
  by (induction xs) (simp_all add: js_sort_def mset_insert_by)

lemma set_js_sort: "set (js_sort compare xs) = set xs"
  using mset_js_sort [of compare xs] by (metis set_mset_mset)

text \<open>Inserting an item whose key is below every key of a list that is already in the
  order of the code keeps that order.\<close>

lemma insert_by_newest_first:
  assumes "sorted_wrt newest_first_id_asc ys"
    and "\<forall>y \<in> set ys. item_id x < item_id y"
  shows "sorted_wrt newest_first_id_asc (insert_by (\<lambda>a b. createdAt b - createdAt a) x ys)"
  using assms
proof (induction ys)
  case Nil
  then show ?case by simp
next
  case (Cons y ys)
  show ?case
  proof (cases "createdAt y - createdAt x \<le> 0")
    case True
    have "newest_first_id_asc x z" if "z \<in> set (y # ys)" for z
    proof -
      have "createdAt z \<le> createdAt y"
        using that Cons.prems(1) by (auto simp: newest_first_id_asc_def)
      moreover have "item_id x < item_id z"
        using that Cons.prems(2) by blast
      ultimately show ?thesis
        using True by (auto simp: newest_first_id_asc_def)
    qed
    with True Cons.prems(1) show ?thesis
      by simp
  next
    case False
    then have "newest_first_id_asc y x"
      by (simp add: newest_first_id_asc_def)
    moreover have "sorted_wrt newest_first_id_asc
        (insert_by (\<lambda>a b. createdAt b - createdAt a) x ys)"
      using Cons by simp
    ultimately show ?thesis
      using False Cons.prems(1) by (auto simp: set_insert_by)
  qed
qed

lemma js_sort_newest_first:
  "sorted_wrt (\<lambda>a b. item_id a < item_id b) xs \<Longrightarrow>
   sorted_wrt newest_first_id_asc (js_sort (\<lambda>a b. createdAt b - createdAt a) xs)"
proof (induction xs)
  case Nil
  then show ?case by (simp add: js_sort_def)
next
  case (Cons x xs)
  then have "sorted_wrt newest_first_id_asc (js_sort (\<lambda>a b. createdAt b - createdAt a) xs)"
    by simp
  moreover have "\<forall>y \<in> set (js_sort (\<lambda>a b. createdAt b - createdAt a) xs). item_id x < item_id y"
    using Cons.prems by (simp add: set_js_sort)
  ultimately have "sorted_wrt newest_first_id_asc
      (insert_by (\<lambda>a b. createdAt b - createdAt a) x
        (js_sort (\<lambda>a b. createdAt b - createdAt a) xs))"
    by (rule insert_by_newest_first)
  then show ?case
    by (simp add: js_sort_def)
qed

lemma store_ok_empty: "store_ok empty_gallery"
  by (simp add: store_ok_def key_ordered_def empty_gallery_def)

lemma store_ok_save: "store_ok db \<Longrightarrow> store_ok (snd (saveItemToGallery f now db))"
  by (auto simp: store_ok_def key_ordered_def saveItemToGallery_def sorted_wrt_append
      list_all_iff less_Suc_eq)

lemma store_ok_delete: "store_ok db \<Longrightarrow> store_ok (deleteItemFromGallery k db)"
  by (auto simp: store_ok_def key_ordered_def deleteItemFromGallery_def list_all_iff
      sorted_wrt_filter)

text \<open>
  Claim C7, as the code has it. On every store whose records are in ascending key order,
  \<open>getAllItemsFromGallery\<close> returns exactly the stored entries, ordered by \<open>createdAt\<close>
  descending; two entries with the same \<open>createdAt\<close> come in ascending key order, the
  order the store returned them in.
\<close>

theorem gallery_list_newest_first_ties_by_ascending_id:
  assumes "key_ordered db"
  shows "mset (getAllItemsFromGallery db) = mset (records db)
       \<and> sorted_wrt
           (\<lambda>a b. createdAt a > createdAt b
                   \<or> (createdAt a = createdAt b \<and> item_id a < item_id b))
           (getAllItemsFromGallery db)"
proof -
  have "sorted_wrt newest_first_id_asc (getAllItemsFromGallery db)"
    using assms unfolding key_ordered_def getAllItemsFromGallery_def
    by (rule js_sort_newest_first)
  moreover have "newest_first_id_asc
      = (\<lambda>a b. createdAt a > createdAt b \<or> (createdAt a = createdAt b \<and> item_id a < item_id b))"
    by (simp add: newest_first_id_asc_def fun_eq_iff)
  ultimately show ?thesis
    by (simp add: getAllItemsFromGallery_def mset_js_sort)
qed

theorem gallery_list_newest_first_ties_by_ascending_id_witness:
  "key_ordered
     (snd (saveItemToGallery (sample_file ''C'') 9
       (snd (saveItemToGallery (sample_file ''B'') 5
         (snd (saveItemToGallery (sample_file ''A'') 5 empty_gallery))))))
   \<and> map item_id (getAllItemsFromGallery
     (snd (saveItemToGallery (sample_file ''C'') 9
       (snd (saveItemToGallery (sample_file ''B'') 5
         (snd (saveItemToGallery (sample_file ''A'') 5 empty_gallery))))))) = [3, 1, 2]
   \<and> map createdAt (getAllItemsFromGallery
     (snd (saveItemToGallery (sample_file ''C'') 9
       (snd (saveItemToGallery (sample_file ''B'') 5
         (snd (saveItemToGallery (sample_file ''A'') 5 empty_gallery))))))) = [9, 5, 5]"
proof -
  let ?db = "snd (saveItemToGallery (sample_file ''C'') 9
       (snd (saveItemToGallery (sample_file ''B'') 5
         (snd (saveItemToGallery (sample_file ''A'') 5 empty_gallery)))))"
  have k: "key_ordered ?db"
    by (simp add: key_ordered_def saveItemToGallery_def empty_gallery_def)
  show ?thesis
    using k gallery_list_newest_first_ties_by_ascending_id [OF k]
    by (simp add: getAllItemsFromGallery_def js_sort_def saveItemToGallery_def
        empty_gallery_def)
qed

text \<open>
  Claim C7 as stated fails on the tie-break: two entries saved at the same millisecond
  are listed with the lower id first, so the list is not in the order "newest first, then
  id descending".
\<close>

theorem gallery_list_tie_counterexample:
  "map item_id (getAllItemsFromGallery
     (snd (saveItemToGallery (sample_file ''B'') 5
       (snd (saveItemToGallery (sample_file ''A'') 5 empty_gallery))))) = [1, 2]
   \<and> map createdAt (getAllItemsFromGallery
     (snd (saveItemToGallery (sample_file ''B'') 5
       (snd (saveItemToGallery (sample_file ''A'') 5 empty_gallery))))) = [5, 5]
   \<and> \<not> sorted_wrt newest_first_id_desc (getAllItemsFromGallery
     (snd (saveItemToGallery (sample_file ''B'') 5
       (snd (saveItemToGallery (sample_file ''A'') 5 empty_gallery)))))"
  by (simp add: getAllItemsFromGallery_def js_sort_def saveItemToGallery_def
      empty_gallery_def newest_first_id_desc_def)

section \<open>Properties of the object URLs\<close>

lemma urls_ok_initial: "urls_ok initial_urls"
  by (simp add: urls_ok_def initial_urls_def bound_urls_def)

lemma live_count_bound:
  "urls_ok us \<Longrightarrow> live_count r us = (case cleanup_of us r of Some u \<Rightarrow> 1 | None \<Rightarrow> 0)"
  by (simp add: urls_ok_def live_count_def bound_urls_def split: option.splits)

lemma bound_in_live:
  "urls_ok us \<Longrightarrow> cleanup_of us r = Some u \<Longrightarrow> (u, r) \<in> set (live_urls us)"
proof -
  assume ok: "urls_ok us" and c: "cleanup_of us r = Some u"
  then have "filter (\<lambda>p. snd p = r) (live_urls us) = [(u, r)]"
    by (simp add: urls_ok_def bound_urls_def)
  then have "(u, r) \<in> set (filter (\<lambda>p. snd p = r) (live_urls us))"
    by simp
  then show ?thesis
    by simp
qed

lemma other_role_other_url:
  assumes "urls_ok us" "cleanup_of us r = Some u" "cleanup_of us r' = Some u'" "r' \<noteq> r"
  shows "u' \<noteq> u"
proof
  assume "u' = u"
  have "(u, r) \<in> set (live_urls us)" "(u', r') \<in> set (live_urls us)"
    using assms bound_in_live by blast+
  moreover have "inj_on fst (set (live_urls us))"
    using assms(1) by (simp add: urls_ok_def distinct_map)
  ultimately have "(u, r) = (u', r')"
    using \<open>u' = u\<close> inj_onD [of fst "set (live_urls us)" "(u, r)" "(u', r')"] by simp
  with assms(4) show False by simp
qed

lemma urls_ok_run_cleanup:
  assumes "urls_ok us"
  shows "urls_ok (run_cleanup r us)" and "cleanup_of (run_cleanup r us) r = None"
proof -
  show "cleanup_of (run_cleanup r us) r = None"
    by (simp add: run_cleanup_def revokeObjectURL_def split: option.splits)
  show "urls_ok (run_cleanup r us)"
  proof (cases "cleanup_of us r")
    case None
    with assms show ?thesis by (simp add: run_cleanup_def)
  next
    case (Some u)
    have f: "filter (\<lambda>p. snd p = r') (filter (\<lambda>p. fst p \<noteq> u) (live_urls us))
        = filter (\<lambda>p. fst p \<noteq> u) (bound_urls r' us)" for r'
      using assms by (simp add: urls_ok_def filter_filter conj_commute) (metis filter_filter)
    have g: "filter (\<lambda>p. fst p \<noteq> u) (bound_urls r' us)
        = (if r' = r then [] else bound_urls r' us)" for r'
      using other_role_other_url [OF assms Some, of r'] Some
      by (auto simp: bound_urls_def split: option.splits)
    have d: "distinct (map fst (filter (\<lambda>p. fst p \<noteq> u) (live_urls us)))"
      using assms by (simp add: urls_ok_def distinct_map_filter)
    have b: "list_all (\<lambda>p. fst p < next_url us) (filter (\<lambda>p. fst p \<noteq> u) (live_urls us))"
      using assms by (simp add: urls_ok_def list_all_iff)
    show ?thesis
      using Some d b f g
      by (simp add: urls_ok_def run_cleanup_def revokeObjectURL_def bound_urls_def)
  qed
qed

lemma urls_ok_run_effect:
  assumes "urls_ok us" and "cleanup_of us r = None"
  shows "urls_ok (run_effect r img us)"
proof (cases img)
  case None
  with assms show ?thesis
    by (simp add: run_effect_def urls_ok_def bound_urls_def)
next
  case (Some f)
  have e: "filter (\<lambda>p. snd p = r) (live_urls us) = []"
    using assms by (simp add: urls_ok_def bound_urls_def)
  have n: "next_url us \<notin> fst ` set (live_urls us)"
    using assms(1) by (auto simp: urls_ok_def list_all_iff)
  have b: "list_all (\<lambda>p. fst p < Suc (next_url us)) (live_urls us)"
    using assms(1) by (auto simp: urls_ok_def list_all_iff)
  show ?thesis
    using Some assms e n b
    by (auto simp: run_effect_def createObjectURL_def urls_ok_def bound_urls_def)
qed

lemma urls_ok_rerun_effect: "urls_ok us \<Longrightarrow> urls_ok (rerun_effect r img us)"
  by (simp add: rerun_effect_def urls_ok_run_effect urls_ok_run_cleanup)

lemma urls_ok_effect_step: "urls_ok us \<Longrightarrow> urls_ok (effect_step e us)"
  by (cases e) (simp_all add: urls_ok_rerun_effect urls_ok_run_cleanup)

lemma urls_ok_run_effects: "urls_ok us \<Longrightarrow> urls_ok (run_effects es us)"
  by (induction es arbitrary: us) (simp_all add: urls_ok_effect_step)

text \<open>
  Claim C8. For each role, at every point the effects can reach (after any sequence of
  image changes and unmounts, and in between, after the cleanup of either role has run),
  the number of live object URLs of the role is 0 or 1. Showing a new image in a role
  leaves exactly one live URL for that role, whatever was shown before, and a role whose
  image has become absent has none.
\<close>

theorem one_live_url_per_role:
  "live_count r (run_effects es initial_urls) \<le> 1
   \<and> live_count r (run_cleanup r' (run_effects es initial_urls)) \<le> 1
   \<and> live_count r (run_cleanup r (run_effects es initial_urls)) = 0
   \<and> live_count r (rerun_effect r (Some m) (run_effects es initial_urls)) = 1
   \<and> live_count r (rerun_effect r None (run_effects es initial_urls)) = 0"
proof -
  let ?us = "run_effects es initial_urls"
  have ok: "urls_ok ?us"
    using urls_ok_initial by (rule urls_ok_run_effects)
  have "live_count r ?us \<le> 1"
    using ok by (simp add: live_count_bound split: option.splits)
  moreover have "live_count r (run_cleanup r' ?us) \<le> 1"
    using urls_ok_run_cleanup(1) [OF ok, of r']
    by (simp add: live_count_bound split: option.splits)
  moreover have "live_count r (run_cleanup r ?us) = 0"
    using urls_ok_run_cleanup [OF ok, of r] by (simp add: live_count_bound)
  moreover have "cleanup_of (rerun_effect r (Some m) ?us) r \<noteq> None"
    by (simp add: rerun_effect_def run_effect_def createObjectURL_def)
  then have "live_count r (rerun_effect r (Some m) ?us) = 1"
    using urls_ok_rerun_effect [OF ok, of r "Some m"]
    by (auto simp: live_count_bound split: option.splits)
  moreover have "cleanup_of (rerun_effect r None ?us) r = None"
    by (simp add: rerun_effect_def run_effect_def)
  then have "live_count r (rerun_effect r None ?us) = 0"
    using urls_ok_rerun_effect [OF ok, of r None] by (simp add: live_count_bound)
  ultimately show ?thesis
    by simp
qed

theorem one_live_url_per_role_witness:
  "live_urls (run_effects
       [ImageChanged Current (Some (sample_file ''A'')),
        ImageChanged Original (Some (sample_file ''A'')),
        ImageChanged Current (Some (sample_file ''B''))] initial_urls)
     = [(2, Current), (1, Original)]
   \<and> live_count Current (run_effects
       [ImageChanged Current (Some (sample_file ''A'')),
        ImageChanged Original (Some (sample_file ''A'')),
        ImageChanged Current (Some (sample_file ''B''))] initial_urls) = 1
   \<and> live_count Current (rerun_effect Current None (run_effects
       [ImageChanged Current (Some (sample_file ''A'')),
        ImageChanged Original (Some (sample_file ''A'')),
        ImageChanged Current (Some (sample_file ''B''))] initial_urls)) = 0"
  using one_live_url_per_role
    [of Current
        "[ImageChanged Current (Some (sample_file ''A'')),
          ImageChanged Original (Some (sample_file ''A'')),
          ImageChanged Current (Some (sample_file ''B''))]"
        Original "sample_file ''C''"]
  by (simp add: initial_urls_def rerun_effect_def run_effect_def run_cleanup_def
      createObjectURL_def revokeObjectURL_def live_count_def)

end
